theory Spec2Isabelle
  imports Main "HOL-Library.Multiset"
begin

section \<open>Strings\<close>

text \<open>
  A JavaScript string is modelled by the list of its code units, for code units below 256
  (\<^typ>\<open>string\<close>); \<open>length\<close> is the \<open>.length\<close> of the source and the empty list is the
  only falsy string.
\<close>

fun starts_with :: "string \<Rightarrow> string \<Rightarrow> bool" where
  "starts_with s [] = True"
| "starts_with [] (p # ps) = False"
| "starts_with (c # cs) (p # ps) = (c = p \<and> starts_with cs ps)"

text \<open>\<open>s.includes(sub)\<close>: \<open>sub\<close> occurs in \<open>s\<close> as a contiguous run.\<close>

fun js_includes :: "string \<Rightarrow> string \<Rightarrow> bool" where
  "js_includes [] sub = (sub = [])"
| "js_includes (c # cs) sub = (starts_with (c # cs) sub \<or> js_includes cs sub)"

text \<open>\<open>s.split('.').pop()\<close>: what follows the last dot, the whole string when it has none.\<close>

definition split_pop :: "string \<Rightarrow> string" where
  "split_pop s = rev (takeWhile (\<lambda>c. c \<noteq> CHR ''.'') (rev s))"

text \<open>
  \<open>toLowerCase\<close> on code units below 256: the letters A to Z and the Latin-1 capitals
  (192 to 222 without the multiplication sign 215) move up by 32.
\<close>

definition lower_char :: "char \<Rightarrow> char" where
  "lower_char c =
     (let n = (of_char c :: nat)
      in if (65 \<le> n \<and> n \<le> 90) \<or> (192 \<le> n \<and> n \<le> 222 \<and> n \<noteq> 215)
         then char_of (n + 32) else c)"

definition toLowerCase :: "string \<Rightarrow> string" where
  "toLowerCase s = map lower_char s"

section \<open>The platform\<close>

text \<open>
  What the browser supplies and the repository does not define: the URL parser behind
  \<open>new URL(url)\<close> (\<open>None\<close> when the constructor throws, otherwise the \<open>pathname\<close>), the
  message of the error it throws, and the text an engine prints for the built-in
  \<open>Object\<close> function.
\<close>

record platform =
  url_pathname :: "string \<Rightarrow> string option"
  invalid_url_message :: string
  native_Object_text :: string

section \<open>The filename resolver\<close>

text \<open>
  The object literal \<open>typeMap\<close> of \<open>ensureFileExtension\<close>, read with \<open>typeMap[key]\<close>. The
  nine own keys come first. A property read also finds what the literal inherits from
  \<open>Object.prototype\<close>; of the inherited names only \<open>constructor\<close> and \<open>__proto__\<close>
  are their own lower-case form, so only they can be reached after \<open>toLowerCase\<close>. Both are
  truthy, and the template string prints them as the engine's text for \<open>Object\<close> and as
  \<open>[object Object]\<close>.
\<close>

definition typeMap_own :: "string \<Rightarrow> string option" where
  "typeMap_own key =
     (if key = ''image/jpeg'' then Some ''jpg''
      else if key = ''image/jpg'' then Some ''jpg''
      else if key = ''image/png'' then Some ''png''
      else if key = ''image/webp'' then Some ''webp''
      else if key = ''image/gif'' then Some ''gif''
      else if key = ''video/mp4'' then Some ''mp4''
      else if key = ''video/webm'' then Some ''webm''
      else if key = ''video/avi'' then Some ''avi''
      else if key = ''video/mov'' then Some ''mov''
      else None)"

definition typeMap :: "platform \<Rightarrow> string \<Rightarrow> string option" where
  "typeMap pf key =
     (case typeMap_own key of
        Some ext \<Rightarrow> Some ext
      | None \<Rightarrow>
          if key = ''constructor'' then Some (native_Object_text pf)
          else if key = ''__proto__'' then Some ''[object Object]''
          else None)"

text \<open>
  \<open>ensureFileExtension(filename, url, contentType = '')\<close>. The steps are the source's, in
  its order: the guard on an empty name; a name that has a dot and at most four characters
  after the last one; the content type; the extension of the URL's path (a parse failure
  is caught and skipped); the URL patterns for video; \<open>.jpg\<close>.
\<close>

definition ensureFileExtension :: "platform \<Rightarrow> string \<Rightarrow> string \<Rightarrow> string \<Rightarrow> string" where
  "ensureFileExtension pf filename url contentType =
     (if filename = [] then ''download.jpg''
      else if js_includes filename ''.'' \<and> length (split_pop filename) \<le> 4 then filename
      else
        (case (if contentType \<noteq> [] then typeMap pf (toLowerCase contentType) else None) of
           Some extension \<Rightarrow> filename @ ''.'' @ extension
         | None \<Rightarrow>
            (case (case url_pathname pf url of
                     None \<Rightarrow> None
                   | Some urlPath \<Rightarrow>
                       (let urlExtension = split_pop urlPath
                        in if urlExtension \<noteq> [] \<and> length urlExtension \<le> 4
                              \<and> \<not> js_includes urlExtension ''/''
                           then Some urlExtension else None)) of
               Some urlExtension \<Rightarrow> filename @ ''.'' @ urlExtension
             | None \<Rightarrow>
                 if js_includes url ''video'' \<or> js_includes url ''.mp4'' \<or> js_includes url ''.webm''
                 then filename @ ''.mp4''
                 else filename @ ''.jpg'')))"

text \<open>The extension of a resolved name: what follows its last dot.\<close>

definition extension_of :: "string \<Rightarrow> string" where
  "extension_of name = split_pop name"

definition has_extension :: "string \<Rightarrow> bool" where
  "has_extension name =
     (name \<noteq> [] \<and> js_includes name ''.''
      \<and> 1 \<le> length (extension_of name) \<and> length (extension_of name) \<le> 4)"

section \<open>The document\<close>

text \<open>
  The part of the page the download code touches: the children it appends to
  \<open>document.body\<close> (each node with its identity and tag), the object URLs that are live,
  the \<open>download\<close> attribute of every anchor whose activation went through, and the URLs
  handed to \<open>window.open\<close>.
\<close>

datatype tag = Anchor | IframeTag

record dom =
  body :: "(nat \<times> tag) list"
  next_node :: nat
  object_urls :: "nat list"
  next_url :: nat
  saved :: "string list"
  opened :: "string list"

definition createElement :: "tag \<Rightarrow> dom \<Rightarrow> (nat \<times> tag) \<times> dom" where
  "createElement t d = ((next_node d, t), d\<lparr>next_node := Suc (next_node d)\<rparr>)"

definition appendChild :: "nat \<times> tag \<Rightarrow> dom \<Rightarrow> dom" where
  "appendChild node d = d\<lparr>body := body d @ [node]\<rparr>"

definition removeChild :: "nat \<times> tag \<Rightarrow> dom \<Rightarrow> dom" where
  "removeChild node d = d\<lparr>body := remove1 node (body d)\<rparr>"

definition createObjectURL :: "dom \<Rightarrow> nat \<times> dom" where
  "createObjectURL d =
     (next_url d, d\<lparr>object_urls := object_urls d @ [next_url d], next_url := Suc (next_url d)\<rparr>)"

definition revokeObjectURL :: "nat \<Rightarrow> dom \<Rightarrow> dom" where
  "revokeObjectURL u d = d\<lparr>object_urls := remove1 u (object_urls d)\<rparr>"

definition activated :: "string \<Rightarrow> dom \<Rightarrow> dom" where
  "activated filename d = d\<lparr>saved := saved d @ [filename]\<rparr>"

definition window_open :: "string \<Rightarrow> dom \<Rightarrow> dom" where
  "window_open url d = d\<lparr>opened := opened d @ [url]\<rparr>"

text \<open>Node identities and object URLs handed out so far are below the counters.\<close>

definition wf_dom :: "dom \<Rightarrow> bool" where
  "wf_dom d = (list_all (\<lambda>node. fst node < next_node d) (body d)
               \<and> list_all (\<lambda>u. u < next_url d) (object_urls d))"

section \<open>Promises and the environment\<close>

text \<open>
  A promise ends resolved with a value, rejected with the message of its error, or it
  never settles. An exception thrown where the caller awaits inside \<open>try\<close> is a rejection.
\<close>

datatype 'a promise = Resolved 'a | Rejected string | Pending

datatype js_error = JsError (err_name: string) (err_message: string)

text \<open>
  The calls of the transfer code that can end abnormally. For a call that throws the
  oracle gives the message of the error; for \<open>ReaderError\<close> (the file reader fires
  \<open>error\<close> and not \<open>load\<close>) and \<open>ToBlobNull\<close> (\<open>canvas.toBlob\<close> hands over \<open>null\<close>) it
  says that the event happens. \<open>FocusClick\<close> is the second \<open>click\<close>, after \<open>focus\<close>;
  the \<open>Data\<close> calls are those of the data-URL anchor. Constructors, timers, property
  writes and console calls return normally.
\<close>

datatype site =
    CreateObjectURL | CreateElement | AppendChild
  | Click | DispatchMouseEvent | FocusClick | DispatchUserEvent
  | RemoveChild | RevokeObjectURL
  | ReadAsDataURL | ReaderError
  | DataCreateElement | DataAppendChild | DataClick | DataRemoveChild | DataRemoveChildOnError
  | XhrOpen | CanvasProcessing | ToBlobNull | WindowOpen

datatype strategy = DirectFetch | Fetch | XHR | Canvas | Iframe | NewTab

record response =
  resp_ok :: bool
  resp_status :: nat
  resp_statusText :: string
  resp_content_type :: "string option"
  resp_blob_error :: "js_error option"

datatype fetch_result = FetchRejected js_error | FetchResponse response

datatype xhr_result = XhrLoad nat "string option" | XhrError | XhrTimeout

datatype image_result = ImageLoaded | ImageError

text \<open>
  One download as the browser answers it: what each call site of each strategy does, the
  answers of the two \<open>fetch\<close> calls, of the request and of the image element, and the time
  the whole download takes to settle.
\<close>

record env =
  faults :: "strategy \<Rightarrow> site \<Rightarrow> string option"
  direct_fetch :: fetch_result
  blob_fetch :: fetch_result
  xhr :: xhr_result
  image :: image_result
  duration :: nat

fun show_nat :: "nat \<Rightarrow> string" where
  "show_nat n =
     (if n < 10 then [char_of (48 + n)]
      else show_nat (n div 10) @ [char_of (48 + n mod 10)])"

declare show_nat.simps [simp del]

section \<open>The trigger mechanism\<close>

text \<open>
  \<open>tryDataUrlDownload(blob, filename)\<close>. The anchor is made in \<open>reader.onload\<close>, outside
  every \<open>try\<close>: an exception there, or in the removal inside a timer, is not caught and
  the promise never settles.
\<close>

definition tryDataUrlDownload :: "(site \<Rightarrow> string option) \<Rightarrow> string \<Rightarrow> dom \<Rightarrow> unit promise \<times> dom" where
  "tryDataUrlDownload f filename d =
     (case f ReadAsDataURL of
        Some m \<Rightarrow> (Rejected (''Data URL download failed: '' @ m), d)
      | None \<Rightarrow>
     (case f ReaderError of
        Some _ \<Rightarrow> (Rejected ''Failed to read blob as data URL'', d)
      | None \<Rightarrow>
     (case f DataCreateElement of
        Some _ \<Rightarrow> (Pending, d)
      | None \<Rightarrow>
     (let (link, d1) = createElement Anchor d in
      case f DataAppendChild of
        Some _ \<Rightarrow> (Pending, d1)
      | None \<Rightarrow>
     (let d2 = appendChild link d1 in
      case f DataClick of
        Some _ \<Rightarrow>
          (case f DataRemoveChildOnError of
             Some _ \<Rightarrow> (Pending, d2)
           | None \<Rightarrow> (Rejected ''Data URL download failed'', removeChild link d2))
      | None \<Rightarrow>
          (let d3 = activated filename d2 in
           case f DataRemoveChild of
             Some _ \<Rightarrow> (Pending, d3)
           | None \<Rightarrow> (Resolved (), removeChild link d3)))))))"

text \<open>
  \<open>forceDownload(blob, filename)\<close>: four activation attempts, each tried only while none
  has gone through, then the cleanup of the 300 ms timer. The cleanup sits in its own
  \<open>try\<close> whose handler resolves. Nothing else detaches the anchor, so the test on
  \<open>link.parentNode\<close> holds when the timer fires.
\<close>

definition forceDownload :: "(site \<Rightarrow> string option) \<Rightarrow> string \<Rightarrow> dom \<Rightarrow> unit promise \<times> dom" where
  "forceDownload f filename d =
     (case f CreateObjectURL of
        Some m \<Rightarrow> (Rejected (''Force download failed: '' @ m), d)
      | None \<Rightarrow>
     (let (blobUrl, d1) = createObjectURL d in
      case f CreateElement of
        Some m \<Rightarrow> (Rejected (''Force download failed: '' @ m), d1)
      | None \<Rightarrow>
     (let (link, d2) = createElement Anchor d1 in
      case f AppendChild of
        Some m \<Rightarrow> (Rejected (''Force download failed: '' @ m), d2)
      | None \<Rightarrow>
     (let d3 = appendChild link d2;
          success = (f Click = None);
          success = (success \<or> f DispatchMouseEvent = None);
          success = (success \<or> f FocusClick = None);
          success = (success \<or> f DispatchUserEvent = None);
          d4 = (if success then activated filename d3 else d3)
      in case f RemoveChild of
           Some _ \<Rightarrow> (Resolved (), d4)
         | None \<Rightarrow>
        (let d5 = removeChild link d4 in
         case f RevokeObjectURL of
           Some _ \<Rightarrow> (Resolved (), d5)
         | None \<Rightarrow>
        (let d6 = revokeObjectURL blobUrl d5 in
         if success then (Resolved (), d6)
         else tryDataUrlDownload f filename d6))))))"

text \<open>\<open>triggerDownload(blob, filename)\<close>: three activation attempts and the 200 ms cleanup.\<close>

definition triggerDownload :: "(site \<Rightarrow> string option) \<Rightarrow> string \<Rightarrow> dom \<Rightarrow> unit promise \<times> dom" where
  "triggerDownload f filename d =
     (case f CreateObjectURL of
        Some m \<Rightarrow> (Rejected (''Failed to trigger download: '' @ m), d)
      | None \<Rightarrow>
     (let (blobUrl, d1) = createObjectURL d in
      case f CreateElement of
        Some m \<Rightarrow> (Rejected (''Failed to trigger download: '' @ m), d1)
      | None \<Rightarrow>
     (let (link, d2) = createElement Anchor d1 in
      case f AppendChild of
        Some m \<Rightarrow> (Rejected (''Failed to trigger download: '' @ m), d2)
      | None \<Rightarrow>
     (let d3 = appendChild link d2;
          downloadTriggered = (f Click = None);
          downloadTriggered = (downloadTriggered \<or> f DispatchMouseEvent = None);
          downloadTriggered = (downloadTriggered \<or> f FocusClick = None);
          d4 = (if downloadTriggered then activated filename d3 else d3)
      in case f RemoveChild of
           Some _ \<Rightarrow> (Resolved (), d4)
         | None \<Rightarrow>
        (let d5 = removeChild link d4 in
         case f RevokeObjectURL of
           Some _ \<Rightarrow> (Resolved (), d5)
         | None \<Rightarrow>
        (let d6 = revokeObjectURL blobUrl d5 in
         if downloadTriggered then (Resolved (), d6)
         else (Rejected ''Failed to trigger download - all click methods failed'', d6)))))))"

section \<open>The transfer strategies\<close>

text \<open>
  \<open>downloadViaDirectFetch(url, filename)\<close>. The function returns as soon as the read of the
  blob has been started; the anchor of \<open>reader.onload\<close> and its two timers run later and
  outside every \<open>try\<close>. \<open>direct_deferred\<close> is the document once they have run.
\<close>

definition direct_deferred :: "(site \<Rightarrow> string option) \<Rightarrow> string \<Rightarrow> dom \<Rightarrow> dom" where
  "direct_deferred f filename d =
     (case f ReaderError of
        Some _ \<Rightarrow> d
      | None \<Rightarrow>
     (case f DataCreateElement of
        Some _ \<Rightarrow> d
      | None \<Rightarrow>
     (let (link, d1) = createElement Anchor d in
      case f DataAppendChild of
        Some _ \<Rightarrow> d1
      | None \<Rightarrow>
     (let d2 = appendChild link d1 in
      case f DataClick of
        Some _ \<Rightarrow> d2
      | None \<Rightarrow>
     (let d3 = activated filename d2 in
      case f DataRemoveChild of
        Some _ \<Rightarrow> d3
      | None \<Rightarrow> removeChild link d3)))))"

definition downloadViaDirectFetch :: "env \<Rightarrow> string \<Rightarrow> string \<Rightarrow> dom \<Rightarrow> unit promise \<times> dom" where
  "downloadViaDirectFetch e url filename d =
     (let f = faults e DirectFetch in
      case direct_fetch e of
        FetchRejected err \<Rightarrow> (Rejected (''Direct fetch download failed: '' @ err_message err), d)
      | FetchResponse r \<Rightarrow>
          if \<not> resp_ok r
          then (Rejected (''Direct fetch download failed: '' @ ''HTTP error! status: ''
                          @ show_nat (resp_status r)), d)
          else
            (case resp_blob_error r of
               Some err \<Rightarrow> (Rejected (''Direct fetch download failed: '' @ err_message err), d)
             | None \<Rightarrow>
                (case f ReadAsDataURL of
                   Some m \<Rightarrow> (Rejected (''Direct fetch download failed: '' @ m), d)
                 | None \<Rightarrow> (Resolved (), direct_deferred f filename d))))"

text \<open>
  \<open>downloadViaFetch(url, filename, options)\<close>. Every failure passes through the one
  handler, which tells a timeout (\<open>AbortError\<close>) from the rest.
\<close>

definition fetch_failure :: "js_error \<Rightarrow> string" where
  "fetch_failure err =
     (if err_name err = ''AbortError''
      then ''Download timeout - file too large or connection too slow''
      else ''Fetch download failed: '' @ err_message err)"

definition downloadViaFetch :: "platform \<Rightarrow> env \<Rightarrow> string \<Rightarrow> string \<Rightarrow> dom \<Rightarrow> unit promise \<times> dom" where
  "downloadViaFetch pf e url filename d =
     (let f = faults e Fetch in
      case blob_fetch e of
        FetchRejected err \<Rightarrow> (Rejected (fetch_failure err), d)
      | FetchResponse r \<Rightarrow>
          if \<not> resp_ok r
          then (Rejected (fetch_failure (JsError ''Error''
                  (''HTTP error! status: '' @ show_nat (resp_status r) @ '' - ''
                   @ resp_statusText r))), d)
          else
            (let contentType = (case resp_content_type r of None \<Rightarrow> [] | Some t \<Rightarrow> t);
                 finalFilename = ensureFileExtension pf filename url contentType
             in case resp_blob_error r of
                  Some err \<Rightarrow> (Rejected (fetch_failure err), d)
                | None \<Rightarrow>
                   (case forceDownload f finalFilename d of
                      (Resolved u, d') \<Rightarrow> (Resolved (), d')
                    | (Rejected m, d') \<Rightarrow> (Rejected (fetch_failure (JsError ''Error'' m)), d')
                    | (Pending, d') \<Rightarrow> (Pending, d'))))"

text \<open>
  \<open>downloadViaXHR(url, filename, options)\<close>. For a storage URL the request URL is rebuilt
  with \<open>new URL(url)\<close>, in the executor and outside any \<open>try\<close>, as are \<open>open\<close> and \<open>send\<close>:
  what they throw rejects the promise as it is.
\<close>

definition downloadViaXHR :: "platform \<Rightarrow> env \<Rightarrow> string \<Rightarrow> string \<Rightarrow> dom \<Rightarrow> unit promise \<times> dom" where
  "downloadViaXHR pf e url filename d =
     (let f = faults e XHR in
      if js_includes url ''firebasestorage.googleapis.com'' \<and> url_pathname pf url = None
      then (Rejected (invalid_url_message pf), d)
      else
        (case f XhrOpen of
           Some m \<Rightarrow> (Rejected m, d)
         | None \<Rightarrow>
            (case xhr e of
               XhrError \<Rightarrow> (Rejected ''XHR network error'', d)
             | XhrTimeout \<Rightarrow> (Rejected ''XHR timeout'', d)
             | XhrLoad status header \<Rightarrow>
                 if status = 200
                 then
                   (let contentType = (case header of None \<Rightarrow> [] | Some t \<Rightarrow> t);
                        finalFilename = ensureFileExtension pf filename url contentType
                    in case forceDownload f finalFilename d of
                         (Resolved u, d') \<Rightarrow> (Resolved (), d')
                       | (Rejected m, d') \<Rightarrow> (Rejected (''XHR download trigger failed: '' @ m), d')
                       | (Pending, d') \<Rightarrow> (Pending, d'))
                 else (Rejected (''XHR failed with status: '' @ show_nat status), d))))"

text \<open>
  \<open>downloadViaCanvas(url, filename)\<close>. The callback of \<open>canvas.toBlob\<close> is an \<open>async\<close>
  function of its own: when \<open>forceDownload\<close> rejects inside it nothing catches the
  rejection, and the promise of the strategy never settles.
\<close>

definition downloadViaCanvas :: "platform \<Rightarrow> env \<Rightarrow> string \<Rightarrow> string \<Rightarrow> dom \<Rightarrow> unit promise \<times> dom" where
  "downloadViaCanvas pf e url filename d =
     (let f = faults e Canvas in
      case image e of
        ImageError \<Rightarrow> (Rejected ''Failed to load image for canvas download'', d)
      | ImageLoaded \<Rightarrow>
         (case f CanvasProcessing of
            Some m \<Rightarrow> (Rejected (''Canvas processing failed: '' @ m), d)
          | None \<Rightarrow>
             (case f ToBlobNull of
                Some _ \<Rightarrow> (Rejected ''Failed to create blob from canvas'', d)
              | None \<Rightarrow>
                 (let finalFilename = ensureFileExtension pf filename url ''image/jpeg''
                  in case forceDownload f finalFilename d of
                       (Resolved u, d') \<Rightarrow> (Resolved (), d')
                     | (Rejected m, d') \<Rightarrow> (Pending, d')
                     | (Pending, d') \<Rightarrow> (Pending, d')))))"

text \<open>
  \<open>downloadViaIframe(url, filename)\<close>: the frame is created, the URL parsed, the frame
  appended; the 2 s timer removes it and resolves, and resolves also when the removal
  throws.
\<close>

definition downloadViaIframe :: "platform \<Rightarrow> env \<Rightarrow> string \<Rightarrow> string \<Rightarrow> dom \<Rightarrow> unit promise \<times> dom" where
  "downloadViaIframe pf e url filename d =
     (let f = faults e Iframe in
      case f CreateElement of
        Some m \<Rightarrow> (Rejected (''Iframe download failed: '' @ m), d)
      | None \<Rightarrow>
     (let (iframe, d1) = createElement IframeTag d in
      case url_pathname pf url of
        None \<Rightarrow> (Rejected (''Iframe download failed: '' @ invalid_url_message pf), d1)
      | Some _ \<Rightarrow>
     (case f AppendChild of
        Some m \<Rightarrow> (Rejected (''Iframe download failed: '' @ m), d1)
      | None \<Rightarrow>
     (let d2 = appendChild iframe d1 in
      case f RemoveChild of
        Some _ \<Rightarrow> (Resolved (), d2)
      | None \<Rightarrow> (Resolved (), removeChild iframe d2)))))"

text \<open>
  \<open>downloadViaNewTab(url, filename)\<close> is not \<open>async\<close>. Whatever throws on the anchor path
  leads to \<open>window.open\<close> in the handler; when that throws too the exception leaves the
  function. The anchor is removed by the statement after \<open>click\<close>, not by a handler.
\<close>

definition newTab_fallback :: "(site \<Rightarrow> string option) \<Rightarrow> string \<Rightarrow> dom \<Rightarrow> unit promise \<times> dom" where
  "newTab_fallback f url d =
     (case f WindowOpen of
        Some m \<Rightarrow> (Rejected m, d)
      | None \<Rightarrow> (Resolved (), window_open url d))"

definition downloadViaNewTab :: "env \<Rightarrow> string \<Rightarrow> string \<Rightarrow> dom \<Rightarrow> unit promise \<times> dom" where
  "downloadViaNewTab e url filename d =
     (let f = faults e NewTab in
      case f CreateElement of
        Some _ \<Rightarrow> newTab_fallback f url d
      | None \<Rightarrow>
     (let (link, d1) = createElement Anchor d in
      case f AppendChild of
        Some _ \<Rightarrow> newTab_fallback f url d1
      | None \<Rightarrow>
     (let d2 = appendChild link d1 in
      case f Click of
        Some _ \<Rightarrow> newTab_fallback f url d2
      | None \<Rightarrow>
     (let d3 = activated filename d2 in
      case f RemoveChild of
        Some _ \<Rightarrow> newTab_fallback f url d3
      | None \<Rightarrow> (Resolved (), removeChild link d3)))))"

section \<open>The orchestrator\<close>

record TransferOutcome =
  success :: bool
  transfer_method :: string
  error :: "string option"

definition method_name :: "strategy \<Rightarrow> string" where
  "method_name m =
     (case m of DirectFetch \<Rightarrow> ''direct-fetch'' | Fetch \<Rightarrow> ''fetch'' | XHR \<Rightarrow> ''xhr''
      | Canvas \<Rightarrow> ''canvas'' | Iframe \<Rightarrow> ''iframe'' | NewTab \<Rightarrow> ''newtab'')"

text \<open>
  The test \<open>/\.(jpg|jpeg|png|webp|gif)(\?|$)/i\<close>: somewhere in the string a dot, one of
  the five extensions in either case, and then a question mark or the end of the string.
\<close>

definition ascii_lower :: "char \<Rightarrow> char" where
  "ascii_lower c =
     (let n = (of_char c :: nat) in if 65 \<le> n \<and> n \<le> 90 then char_of (n + 32) else c)"

definition image_suffix_here :: "string \<Rightarrow> bool" where
  "image_suffix_here s =
     list_ex (\<lambda>ext. starts_with (map ascii_lower s) (''.'' @ ext)
                    \<and> (case drop (Suc (length ext)) s of [] \<Rightarrow> True | c # _ \<Rightarrow> c = CHR ''?''))
       [''jpg'', ''jpeg'', ''png'', ''webp'', ''gif'']"

fun image_regex_test :: "string \<Rightarrow> bool" where
  "image_regex_test [] = False"
| "image_regex_test (c # cs) = (image_suffix_here (c # cs) \<or> image_regex_test cs)"

definition isImage :: "string \<Rightarrow> bool" where
  "isImage url = (js_includes url ''image'' \<or> image_regex_test url)"

text \<open>
  One block \<open>try { await strategy; return {success: true, method} } catch { warn }\<close>:
  the strategy is entered in the list of those invoked; resolved, the call returns;
  rejected, the rest of the function runs; never settled, neither does the call.
\<close>

type_synonym download = "TransferOutcome promise \<times> dom \<times> strategy list"

definition attempt :: "strategy \<Rightarrow> (dom \<Rightarrow> unit promise \<times> dom) \<Rightarrow> (dom \<Rightarrow> strategy list \<Rightarrow> download)
                       \<Rightarrow> dom \<Rightarrow> strategy list \<Rightarrow> download" where
  "attempt m strategy rest d invoked =
     (case strategy d of
        (Resolved u, d') \<Rightarrow>
          (Resolved \<lparr>success = True, transfer_method = method_name m, error = None\<rparr>, d', invoked @ [m])
      | (Rejected msg, d') \<Rightarrow> rest d' (invoked @ [m])
      | (Pending, d') \<Rightarrow> (Pending, d', invoked @ [m]))"

definition all_failed :: TransferOutcome where
  "all_failed =
     \<lparr>success = False, transfer_method = ''none'',
      error = Some ''All download methods failed. Please try again or contact support.''\<rparr>"

text \<open>
  \<open>downloadFile(url, filename, options)\<close>: the guard, which throws, and the six blocks
  in the order of the source, the canvas block under \<open>if (isImage)\<close>. The result is the
  promise, the document afterwards and the strategies invoked, in order.
\<close>

definition downloadFile :: "platform \<Rightarrow> env \<Rightarrow> string \<Rightarrow> string \<Rightarrow> dom \<Rightarrow> download" where
  "downloadFile pf e url filename d =
     (if url = [] \<or> filename = [] then (Rejected ''URL and filename are required'', d, [])
      else
        (let from_newtab = attempt NewTab (downloadViaNewTab e url filename)
                             (\<lambda>d invoked. (Resolved all_failed, d, invoked));
             from_iframe = attempt Iframe (downloadViaIframe pf e url filename) from_newtab;
             from_canvas = (if isImage url
                            then attempt Canvas (downloadViaCanvas pf e url filename) from_iframe
                            else from_iframe)
         in attempt DirectFetch (downloadViaDirectFetch e url filename)
           (attempt Fetch (downloadViaFetch pf e url filename)
           (attempt XHR (downloadViaXHR pf e url filename)
            from_canvas)) d []))"

section \<open>Batch downloads\<close>

record file_item =
  file_url :: string
  file_name :: string

text \<open>The first argument of \<open>downloadMultipleFiles\<close>: an array of files, or anything else.\<close>

datatype files_arg = NotAnArray | FilesArray "file_item list"

text \<open>
  What the callbacks of a batch are called with. \<open>onProgress\<close> receives
  \<open>{current, total, filename, status}\<close>; \<open>onFileComplete\<close> receives
  \<open>{file, result, index, successful, failed}\<close>, where \<open>result\<close> is what \<open>downloadFile\<close>
  resolved to (in the \<open>try\<close> branch) or \<open>{success: false, error}\<close> (in the \<open>catch\<close> branch).
\<close>

record progress =
  progress_current :: int
  progress_total :: nat
  progress_filename :: string
  progress_status :: string

datatype reported = FromDownload TransferOutcome | FromCatch string

record completion =
  completion_file :: file_item
  completion_result :: reported
  completion_index :: int
  completion_successful :: nat
  completion_failed :: nat

text \<open>
  A callback is the caller's code: it returns (\<open>None\<close>) or throws an error, of which the
  batch reads the message. It sees the batch and does not change it.
\<close>

type_synonym 'a callback = "'a \<Rightarrow> string option"

text \<open>
  The options of a batch: \<open>concurrency\<close>, an integer, 1 when absent, and the two
  callbacks, \<open>null\<close> when absent.
\<close>

record options =
  concurrency :: "int option"
  onProgress :: "progress callback option"
  onFileComplete :: "completion callback option"

definition concurrency_of :: "options \<Rightarrow> int" where
  "concurrency_of opts = (case concurrency opts of None \<Rightarrow> 1 | Some n \<Rightarrow> n)"

text \<open>\<open>if (cb) cb(x)\<close>: the message of the error the call throws, if it throws.\<close>

definition invoke :: "'a callback option \<Rightarrow> 'a \<Rightarrow> string option" where
  "invoke cb x = (case cb of None \<Rightarrow> None | Some f \<Rightarrow> f x)"

text \<open>An element of \<open>results\<close>: \<open>{...file, ...result, index}\<close>.\<close>

record entry =
  entry_url :: string
  entry_filename :: string
  entry_success :: bool
  entry_method :: string
  entry_error :: "string option"
  entry_index :: int

record tally =
  results :: "entry list"
  successful :: nat
  failed :: nat

record summary = tally +
  total :: nat

text \<open>What can be seen of a batch from outside: a download is called, a download settles.\<close>

datatype event = Started int | Settled int


text \<open>\<open>xs.slice(start, stop)\<close>, a negative bound counting from the end.\<close>

definition js_slice :: "'a list \<Rightarrow> int \<Rightarrow> int \<Rightarrow> 'a list" where
  "js_slice xs start stop =
     (let n = int (length xs);
          k = (if start < 0 then max (n + start) 0 else min start n);
          final = (if stop < 0 then max (n + stop) 0 else min stop n)
      in take (nat (final - k)) (drop (nat k) xs))"

definition empty_dom :: dom where
  "empty_dom = \<lparr>body = [], next_node = 0, object_urls = [], next_url = 0, saved = [], opened = []\<rparr>"

text \<open>The batch reads the promise of a download and nothing else of it.\<close>

definition download_promise :: "platform \<Rightarrow> env \<Rightarrow> file_item \<Rightarrow> TransferOutcome promise" where
  "download_promise pf e file = fst (downloadFile pf e (file_url file) (file_name file) empty_dom)"

text \<open>
  When a download settles, counted from the start of its batch: at once when the guard
  of \<open>downloadFile\<close> throws, after the time the environment gives it otherwise.
\<close>

definition settle_time :: "env \<Rightarrow> file_item \<Rightarrow> nat" where
  "settle_time e file =
     (if file_url file = [] \<or> file_name file = [] then 0 else Suc (duration e))"

text \<open>
  The state of the loop: \<open>results\<close> with the two counters, the events so far, and the
  messages of the errors that have left the callback of \<open>batch.map\<close> (each rejects the
  promise of its item, and with it \<open>Promise.all\<close>).
\<close>

type_synonym batch_state = "tally \<times> event list \<times> string list"

text \<open>
  The \<open>catch\<close> branch of the callback of \<open>batch.map\<close>: it counts a failure, pushes an
  entry with \<open>method: 'none'\<close> and calls \<open>onFileComplete\<close>, outside any \<open>try\<close>.
\<close>

definition catch_branch :: "options \<Rightarrow> int \<times> file_item \<Rightarrow> string \<Rightarrow> batch_state \<Rightarrow> batch_state" where
  "catch_branch opts item msg st =
     (let (globalIndex, file) = item; (t, tr, thrown) = st;
          t1 = t\<lparr>results := results t @
                    [\<lparr>entry_url = file_url file, entry_filename = file_name file,
                      entry_success = False, entry_method = ''none'',
                      entry_error = Some msg, entry_index = globalIndex\<rparr>],
                 failed := Suc (failed t)\<rparr>
      in case invoke (onFileComplete opts)
                \<lparr>completion_file = file, completion_result = FromCatch msg,
                 completion_index = globalIndex, completion_successful = successful t1,
                 completion_failed = failed t1\<rparr> of
           None \<Rightarrow> (t1, tr, thrown)
         | Some m \<Rightarrow> (t1, tr, thrown @ [m]))"

text \<open>
  The callback of \<open>batch.map\<close> up to its first \<open>await\<close>: \<open>onProgress\<close> is called inside the
  \<open>try\<close>; when it throws, the \<open>catch\<close> branch runs at once and \<open>downloadFile\<close> is not
  called for this file.
\<close>

definition progress_of :: "nat \<Rightarrow> int \<times> file_item \<Rightarrow> progress" where
  "progress_of n item =
     \<lparr>progress_current = fst item + 1, progress_total = n,
      progress_filename = file_name (snd item), progress_status = ''downloading''\<rparr>"

definition download_called :: "options \<Rightarrow> nat \<Rightarrow> int \<times> file_item \<Rightarrow> bool" where
  "download_called opts n item \<longleftrightarrow> invoke (onProgress opts) (progress_of n item) = None"

definition begin_item :: "options \<Rightarrow> nat \<Rightarrow> int \<times> file_item \<Rightarrow> batch_state \<Rightarrow> batch_state" where
  "begin_item opts n item st =
     (let (t, tr, thrown) = st in
      case invoke (onProgress opts) (progress_of n item) of
        Some m \<Rightarrow> catch_branch opts item m st
      | None \<Rightarrow> (t, tr @ [Started (fst item)], thrown))"

text \<open>
  The callback of \<open>batch.map\<close> from the point where \<open>downloadFile\<close> has settled. For a
  resolved promise the \<open>try\<close> branch goes on: it counts, pushes the entry and calls
  \<open>onFileComplete\<close>, still inside the \<open>try\<close>, so that an error thrown there reaches the
  \<open>catch\<close> branch after the entry has been pushed. For a rejected promise the \<open>catch\<close>
  branch runs. The pause of 300 ms that follows changes no result and is left out.
\<close>

definition settle :: "platform \<Rightarrow> (int \<Rightarrow> env) \<Rightarrow> options \<Rightarrow> int \<times> file_item
                      \<Rightarrow> batch_state \<Rightarrow> batch_state" where
  "settle pf envs opts item st =
     (let (globalIndex, file) = item; (t, tr, thrown) = st in
      case download_promise pf (envs globalIndex) file of
        Resolved result \<Rightarrow>
          (let t1 = t\<lparr>results := results t @
                        [\<lparr>entry_url = file_url file, entry_filename = file_name file,
                          entry_success = success result, entry_method = transfer_method result,
                          entry_error = error result, entry_index = globalIndex\<rparr>],
                      successful := (if success result then Suc (successful t) else successful t),
                      failed := (if success result then failed t else Suc (failed t))\<rparr>;
               tr1 = tr @ [Settled globalIndex]
           in case invoke (onFileComplete opts)
                     \<lparr>completion_file = file, completion_result = FromDownload result,
                      completion_index = globalIndex, completion_successful = successful t1,
                      completion_failed = failed t1\<rparr> of
                None \<Rightarrow> (t1, tr1, thrown)
              | Some m \<Rightarrow> catch_branch opts item m (t1, tr1, thrown))
      | Rejected msg \<Rightarrow> catch_branch opts item msg (t, tr @ [Settled globalIndex], thrown)
      | Pending \<Rightarrow> st)"

text \<open>
  One turn of the loop: \<open>batch.map\<close> runs the callback for every file of the batch, in
  order, up to its first \<open>await\<close>, before any download settles; the downloads that settle
  do so in the order of their settle times, equal times in the order of the calls.
  \<open>Promise.all\<close> rejects with the first error that left a callback, stays pending while a
  download is pending, and is through otherwise.
\<close>

datatype batch_end = AllSettled | Hangs | Throws string

definition run_batch :: "platform \<Rightarrow> (int \<Rightarrow> env) \<Rightarrow> options \<Rightarrow> nat \<Rightarrow> int \<Rightarrow> file_item list
                         \<Rightarrow> tally \<times> event list \<Rightarrow> batch_end \<times> tally \<times> event list" where
  "run_batch pf envs opts n i batch st =
     (let (t, tr) = st;
          items = zip (map (\<lambda>batchIndex. i + int batchIndex) [0..<length batch]) batch;
          st1 = fold (begin_item opts n) items (t, tr, []);
          called = filter (download_called opts n) items;
          settling = filter (\<lambda>item. download_promise pf (envs (fst item)) (snd item) \<noteq> Pending) called;
          ordered = sort_key (\<lambda>item. settle_time (envs (fst item)) (snd item)) settling;
          (t2, tr2, thrown) = fold (settle pf envs opts) ordered st1
      in ((case thrown of
             m # ms \<Rightarrow> Throws m
           | [] \<Rightarrow> if length settling = length called then AllSettled else Hangs),
          t2, tr2))"

text \<open>
  The loop \<open>for (let i = 0; i < files.length; i += concurrency)\<close>, with fuel for its
  turns: the loop is through, it waits for a batch that never completes, an error has
  left it, or the fuel has run out while it was still running.
\<close>

datatype loop_end = Done | Stuck | Failed string | OutOfFuel

fun process_batches :: "nat \<Rightarrow> platform \<Rightarrow> (int \<Rightarrow> env) \<Rightarrow> options \<Rightarrow> file_item list \<Rightarrow> int \<Rightarrow> int
                        \<Rightarrow> tally \<times> event list \<Rightarrow> loop_end \<times> tally \<times> event list" where
  "process_batches 0 pf envs opts files c i st = (OutOfFuel, st)"
| "process_batches (Suc fuel) pf envs opts files c i st =
     (if i < int (length files)
      then (case run_batch pf envs opts (length files) i (js_slice files i (i + c)) st of
              (AllSettled, st') \<Rightarrow> process_batches fuel pf envs opts files c (i + c) st'
            | (Hangs, st') \<Rightarrow> (Stuck, st')
            | (Throws m, st') \<Rightarrow> (Failed m, st'))
      else (Done, st))"

text \<open>
  \<open>downloadMultipleFiles(files, options)\<close>: the guard, which throws, then the loop. The
  result is the promise (\<open>None\<close> while the loop is still running when the fuel is used
  up) and the events so far.
\<close>

definition downloadMultipleFiles :: "nat \<Rightarrow> platform \<Rightarrow> (int \<Rightarrow> env) \<Rightarrow> files_arg \<Rightarrow> options
                                     \<Rightarrow> summary promise option \<times> event list" where
  "downloadMultipleFiles fuel pf envs arg opts =
     (case arg of
        NotAnArray \<Rightarrow> (Some (Rejected ''Files array is required and must not be empty''), [])
      | FilesArray files \<Rightarrow>
          if files = []
          then (Some (Rejected ''Files array is required and must not be empty''), [])
          else
            (case process_batches fuel pf envs opts files (concurrency_of opts) 0
                    (\<lparr>results = [], successful = 0, failed = 0\<rparr>, []) of
               (Done, t, tr) \<Rightarrow>
                 (Some (Resolved \<lparr>results = results t, successful = successful t,
                                  failed = failed t, total = length files\<rparr>), tr)
             | (Stuck, t, tr) \<Rightarrow> (Some Pending, tr)
             | (Failed m, t, tr) \<Rightarrow> (Some (Rejected m), tr)
             | (OutOfFuel, t, tr) \<Rightarrow> (None, tr)))"

text \<open>
  What identifies an element of \<open>results\<close> and an element of the input: the index with
  the URL and the filename. And the downloads a sequence of events calls, in order.
\<close>

definition entry_key :: "entry \<Rightarrow> int \<times> string \<times> string" where
  "entry_key x = (entry_index x, entry_url x, entry_filename x)"

definition item_key :: "file_item list \<Rightarrow> nat \<Rightarrow> int \<times> string \<times> string" where
  "item_key files k = (int k, file_url (files ! k), file_name (files ! k))"

fun started :: "event list \<Rightarrow> int list" where
  "started [] = []"
| "started (Started i # es) = i # started es"
| "started (Settled i # es) = started es"

section \<open>The priority order\<close>

text \<open>
  The strategies by name, and the promise of a strategy run on the empty document (the
  promise of a strategy does not depend on the document it starts from).
\<close>

definition run_strategy :: "platform \<Rightarrow> env \<Rightarrow> string \<Rightarrow> string \<Rightarrow> strategy \<Rightarrow> dom
                            \<Rightarrow> unit promise \<times> dom" where
  "run_strategy pf e url filename s d =
     (case s of
        DirectFetch \<Rightarrow> downloadViaDirectFetch e url filename d
      | Fetch \<Rightarrow> downloadViaFetch pf e url filename d
      | XHR \<Rightarrow> downloadViaXHR pf e url filename d
      | Canvas \<Rightarrow> downloadViaCanvas pf e url filename d
      | Iframe \<Rightarrow> downloadViaIframe pf e url filename d
      | NewTab \<Rightarrow> downloadViaNewTab e url filename d)"

definition strategy_promise :: "platform \<Rightarrow> env \<Rightarrow> string \<Rightarrow> string \<Rightarrow> strategy \<Rightarrow> unit promise" where
  "strategy_promise pf e url filename s = fst (run_strategy pf e url filename s empty_dom)"

text \<open>
  The order as the specification words it: direct-fetch, fetch, xhr, canvas (images
  only), iframe, newtab; the strategies are tried in this order up to the first that
  succeeds, whose name is reported. \<open>first_success\<close> walks a list of strategies so, given
  the promise of each.
\<close>

definition automated :: "string \<Rightarrow> strategy list" where
  "automated url = [DirectFetch, Fetch, XHR] @ (if isImage url then [Canvas] else []) @ [Iframe]"

definition chain :: "string \<Rightarrow> strategy list" where
  "chain url = automated url @ [NewTab]"

definition succeeded :: "strategy \<Rightarrow> TransferOutcome" where
  "succeeded s = \<lparr>success = True, transfer_method = method_name s, error = None\<rparr>"

fun first_success :: "(strategy \<Rightarrow> unit promise) \<Rightarrow> strategy list \<Rightarrow> strategy list
                      \<Rightarrow> TransferOutcome promise \<times> strategy list" where
  "first_success p [] invoked = (Resolved all_failed, invoked)"
| "first_success p (s # ss) invoked =
     (case p s of
        Resolved u \<Rightarrow> (Resolved (succeeded s), invoked @ [s])
      | Rejected msg \<Rightarrow> first_success p ss (invoked @ [s])
      | Pending \<Rightarrow> (Pending, invoked @ [s]))"

text \<open>The promise of a download and the strategies it invoked.\<close>

definition outcome :: "download \<Rightarrow> TransferOutcome promise" where
  "outcome r = fst r"

definition invoked_by :: "download \<Rightarrow> strategy list" where
  "invoked_by r = snd (snd r)"


definition view :: "download \<Rightarrow> TransferOutcome promise \<times> strategy list" where
  "view r = (outcome r, invoked_by r)"

text \<open>The anchor path of the new-tab fallback runs through.\<close>

definition newtab_anchor_ok :: "(site \<Rightarrow> string option) \<Rightarrow> bool" where
  "newtab_anchor_ok f =
     (f CreateElement = None \<and> f AppendChild = None \<and> f Click = None \<and> f RemoveChild = None)"

section \<open>Cleanup\<close>

text \<open>
  The calls that keep the books of a transient element: making it, attaching it,
  detaching it, revoking its object URL. And two documents with the same children of the
  body and the same live object URLs.
\<close>

definition bookkeeping_ok :: "(site \<Rightarrow> string option) \<Rightarrow> bool" where
  "bookkeeping_ok f =
     (f CreateElement = None \<and> f AppendChild = None \<and> f RemoveChild = None
      \<and> f RevokeObjectURL = None)"

definition same_document :: "dom \<Rightarrow> dom \<Rightarrow> bool" where
  "same_document d d' = (body d' = body d \<and> object_urls d' = object_urls d)"

section \<open>A sample platform\<close>

text \<open>
  A URL parser for the examples: it accepts \<open>http://\<close> and \<open>https://\<close> URLs and gives
  the path from the first slash after the host up to the query or fragment.
\<close>

definition path_of :: "string \<Rightarrow> string" where
  "path_of rest =
     (let p = takeWhile (\<lambda>c. c \<noteq> CHR ''?'' \<and> c \<noteq> CHR ''#'')
                (dropWhile (\<lambda>c. c \<noteq> CHR ''/'' \<and> c \<noteq> CHR ''?'' \<and> c \<noteq> CHR ''#'') rest)
      in if p = [] then ''/'' else p)"

definition simple_pathname :: "string \<Rightarrow> string option" where
  "simple_pathname u =
     (if starts_with u ''https://'' then Some (path_of (drop 8 u))
      else if starts_with u ''http://'' then Some (path_of (drop 7 u))
      else None)"

definition example_platform :: platform where
  "example_platform =
     \<lparr>url_pathname = simple_pathname,
      invalid_url_message = ''Invalid URL'',
      native_Object_text = ''function Object() { [native code] }''\<rparr>"

section \<open>Sample environments\<close>

definition no_faults :: "site \<Rightarrow> string option" where
  "no_faults = (\<lambda>site. None)"

definition good_response :: "string \<Rightarrow> response" where
  "good_response contentType =
     \<lparr>resp_ok = True, resp_status = 200, resp_statusText = ''OK'',
      resp_content_type = Some contentType, resp_blob_error = None\<rparr>"

text \<open>Everything answers.\<close>

definition online :: env where
  "online =
     \<lparr>faults = (\<lambda>s. no_faults),
      direct_fetch = FetchResponse (good_response ''image/png''),
      blob_fetch = FetchResponse (good_response ''image/png''),
      xhr = XhrLoad 200 (Some ''image/png''),
      image = ImageLoaded,
      duration = 2\<rparr>"

text \<open>The network is down.\<close>

definition offline :: env where
  "offline =
     \<lparr>faults = (\<lambda>s. no_faults),
      direct_fetch = FetchRejected (JsError ''TypeError'' ''Failed to fetch''),
      blob_fetch = FetchRejected (JsError ''TypeError'' ''Failed to fetch''),
      xhr = XhrError,
      image = ImageError,
      duration = 1\<rparr>"

text \<open>The first \<open>fetch\<close> fails and the second answers; both fail and the request answers.\<close>

definition first_fetch_down :: env where
  "first_fetch_down =
     online\<lparr>direct_fetch := FetchRejected (JsError ''TypeError'' ''Failed to fetch'')\<rparr>"

definition fetches_down :: env where
  "fetches_down =
     first_fetch_down\<lparr>blob_fetch := FetchRejected (JsError ''TypeError'' ''Failed to fetch'')\<rparr>"

text \<open>The host refuses cross-origin requests and lets an image element load.\<close>

definition cors_blocked :: env where
  "cors_blocked = offline\<lparr>image := ImageLoaded\<rparr>"

text \<open>A video whose headers arrive and whose body does not; the request times out.\<close>

definition stalled_response :: response where
  "stalled_response =
     \<lparr>resp_ok = True, resp_status = 200, resp_statusText = ''OK'',
      resp_content_type = Some ''video/mp4'',
      resp_blob_error = Some (JsError ''TypeError'' ''network error'')\<rparr>"

definition video_stalled :: env where
  "video_stalled =
     \<lparr>faults = (\<lambda>s. no_faults),
      direct_fetch = FetchResponse stalled_response,
      blob_fetch = FetchResponse stalled_response,
      xhr = XhrTimeout,
      image = ImageError,
      duration = 30\<rparr>"

text \<open>The network is down, and in the new-tab fallback both \<open>click\<close> and \<open>window.open\<close> throw.\<close>

definition hostile :: env where
  "hostile =
     offline\<lparr>faults := (\<lambda>s site. if s = NewTab \<and> (site = Click \<or> site = WindowOpen)
                                then Some ''blocked'' else None)\<rparr>"

text \<open>Every activation throws; the removal of the anchor throws.\<close>

definition clicks_denied :: "site \<Rightarrow> string option" where
  "clicks_denied =
     (\<lambda>site. if site = Click \<or> site = DispatchMouseEvent \<or> site = FocusClick
                  \<or> site = DispatchUserEvent \<or> site = DataClick
               then Some ''denied'' else None)"

definition removal_fails :: "site \<Rightarrow> string option" where
  "removal_fails = (\<lambda>site. if site = RemoveChild then Some ''NotFoundError'' else None)"

text \<open>A page with two nodes of its own in the body and one live object URL.\<close>

definition busy_dom :: dom where
  "busy_dom =
     \<lparr>body = [(0, Anchor), (2, IframeTag)], next_node = 3, object_urls = [4], next_url = 5,
      saved = [], opened = []\<rparr>"

text \<open>
  A batch of five: the second file sits on a host that is down and has a URL that does
  not parse, the fourth has no filename; the others download, each in its own time.
\<close>

definition sample_files :: "file_item list" where
  "sample_files =
     [\<lparr>file_url = ''https://cdn.example.com/a.png'', file_name = ''a.png''\<rparr>,
      \<lparr>file_url = ''media/clip.mp4'', file_name = ''clip.mp4''\<rparr>,
      \<lparr>file_url = ''https://cdn.example.com/c.png'', file_name = ''c''\<rparr>,
      \<lparr>file_url = ''https://cdn.example.com/d.png'', file_name = []\<rparr>,
      \<lparr>file_url = ''https://cdn.example.com/e.png'', file_name = ''e.png''\<rparr>]"

definition sample_envs :: "int \<Rightarrow> env" where
  "sample_envs i =
     (if i = 1 then hostile
      else if i = 0 then online\<lparr>duration := 5\<rparr>
      else online)"

text \<open>
  Options: two downloads at a time and no callback; and the default limit with an
  \<open>onFileComplete\<close> that throws when it is told of a success,
  \<open>({result}) => { if (result.success) throw new Error('listener failed') }\<close>.
\<close>

definition two_at_a_time :: options where
  "two_at_a_time = \<lparr>concurrency = Some 2, onProgress = None, onFileComplete = None\<rparr>"

definition rejects_success :: "completion callback" where
  "rejects_success c =
     (case completion_result c of
        FromDownload result \<Rightarrow> if success result then Some ''listener failed'' else None
      | FromCatch msg \<Rightarrow> None)"

definition with_listener :: options where
  "with_listener = \<lparr>concurrency = None, onProgress = None, onFileComplete = Some rejects_success\<rparr>"

text \<open>
  The default limit with an \<open>onProgress\<close> that throws for the second file,
  \<open>({current}) => { if (current === 2) throw new Error('busy') }\<close>.
\<close>

definition stops_second :: "progress callback" where
  "stops_second p = (if progress_current p = 2 then Some ''busy'' else None)"

definition with_progress :: options where
  "with_progress = \<lparr>concurrency = None, onProgress = Some stops_second, onFileComplete = None\<rparr>"

definition one_file :: "file_item list" where
  "one_file = [\<lparr>file_url = ''https://cdn.example.com/a.png'', file_name = ''a.png''\<rparr>]"

section \<open>Properties of the filename resolver\<close>

text \<open>
  C3. The resolver is to return, for every name, URL and content type, a non-empty
  string with a dot followed by an extension of one to four characters. The test on a
  name that already has a dot bounds the length of what follows the last dot from above
  only, where the test on the URL's extension also asks for it to be non-empty: a name
  that ends in a dot is returned as it is, with an extension of length 0.
\<close>

theorem ensureFileExtension_trailing_dot:
  "ensureFileExtension example_platform ''photo.'' ''https://example.com/a.png'' ''image/png''
     = ''photo.''
   \<and> extension_of (ensureFileExtension example_platform ''photo.''
                     ''https://example.com/a.png'' ''image/png'') = []
   \<and> \<not> has_extension (ensureFileExtension example_platform ''photo.''
                        ''https://example.com/a.png'' ''image/png'')"
  by (simp add: ensureFileExtension_def split_pop_def has_extension_def extension_of_def)

text \<open>
  C6, as stated: an empty name with the content type \<open>video/mp4\<close> resolves to
  \<open>download.mp4\<close>. It does not: the guard on the empty name answers before the content
  type is read.
\<close>

theorem ensureFileExtension_empty_name_counterexample:
  "ensureFileExtension example_platform [] ''https://cdn.example.com/clip'' ''video/mp4''
     \<noteq> ''download.mp4''"
  by (simp add: ensureFileExtension_def)

text \<open>
  C6, amended: an empty name resolves to \<open>download.jpg\<close> whatever the content type and
  the URL; a non-empty name that does not pass for one with an extension (no dot, or more
  than four characters after the last one) gets the extension of a known content type
  appended, the content type compared in lower case.
\<close>

theorem ensureFileExtension_content_type:
  "ensureFileExtension pf [] url contentType = ''download.jpg''
   \<and> (filename \<noteq> []
        \<and> \<not> (js_includes filename ''.'' \<and> length (split_pop filename) \<le> 4)
        \<and> typeMap_own (toLowerCase contentType) = Some ext
      \<longrightarrow> ensureFileExtension pf filename url contentType = filename @ ''.'' @ ext)"
  by (auto simp add: ensureFileExtension_def typeMap_def typeMap_own_def toLowerCase_def
           split: if_splits)

theorem ensureFileExtension_content_type_witness:
  "ensureFileExtension example_platform [] ''https://cdn.example.com/clip'' ''video/mp4''
     = ''download.jpg''
   \<and> ensureFileExtension example_platform ''clip'' ''https://cdn.example.com/clip'' ''Video/MP4''
     = ''clip.mp4''"
  using ensureFileExtension_content_type
          [of example_platform "''https://cdn.example.com/clip''" "''video/mp4''"]
        ensureFileExtension_content_type
          [of example_platform "''https://cdn.example.com/clip''" "''Video/MP4''"
              "''clip''" "''mp4''"]
  by (simp add: typeMap_own_def toLowerCase_def lower_char_def char_of_eq_iff split_pop_def)

section \<open>Properties of the orchestrator\<close>

text \<open>The promise of a strategy does not depend on the document it starts from.\<close>

lemma tryDataUrlDownload_promise:
  "fst (tryDataUrlDownload f filename d) = fst (tryDataUrlDownload f filename d')"
  by (simp add: tryDataUrlDownload_def Let_def createElement_def split: option.splits prod.splits)

lemma forceDownload_promise:
  "fst (forceDownload f filename d) = fst (forceDownload f filename d')"
  using tryDataUrlDownload_promise
  by (simp add: forceDownload_def Let_def createElement_def createObjectURL_def split: option.splits prod.splits)

lemma fst_force_case:
  "fst (case forceDownload f filename d of (Resolved u, d') \<Rightarrow> (a, d') | (Rejected m, d') \<Rightarrow> (b m, d') | (Pending, d') \<Rightarrow> (c, d'))
   = (case fst (forceDownload f filename d) of Resolved u \<Rightarrow> a | Rejected m \<Rightarrow> b m | Pending \<Rightarrow> c)"
  by (simp split: prod.splits promise.splits)

lemma run_strategy_promise:
  "fst (run_strategy pf e url filename s d) = strategy_promise pf e url filename s"
proof (cases s)
  case DirectFetch
  then show ?thesis
    by (simp add: strategy_promise_def run_strategy_def downloadViaDirectFetch_def Let_def
             split: fetch_result.splits option.splits)
next
  case Fetch
  then show ?thesis
    using forceDownload_promise [of "faults e Fetch" _ d empty_dom]
    by (simp add: strategy_promise_def run_strategy_def downloadViaFetch_def Let_def fst_force_case
             split: fetch_result.splits option.splits)
next
  case XHR
  then show ?thesis
    using forceDownload_promise [of "faults e XHR" _ d empty_dom]
    by (simp add: strategy_promise_def run_strategy_def downloadViaXHR_def Let_def fst_force_case
             split: xhr_result.splits option.splits)
next
  case Canvas
  then show ?thesis
    using forceDownload_promise [of "faults e Canvas" _ d empty_dom]
    by (simp add: strategy_promise_def run_strategy_def downloadViaCanvas_def Let_def fst_force_case
             split: image_result.splits option.splits)
next
  case Iframe
  then show ?thesis
    by (simp add: strategy_promise_def run_strategy_def downloadViaIframe_def Let_def
             createElement_def split: option.splits prod.splits)
next
  case NewTab
  then show ?thesis
    by (simp add: strategy_promise_def run_strategy_def downloadViaNewTab_def Let_def
             newTab_fallback_def createElement_def split: option.splits prod.splits)
qed

lemma view_attempt:
  assumes "\<And>d. fst (strat d) = p s"
    and "\<And>d tr. view (rest d tr) = first_success p ss tr"
  shows "view (attempt s strat rest d tr) = first_success p (s # ss) tr"
  using assms(1) [of d] assms(2)
  by (cases "strat d"; cases "p s")
     (simp_all add: attempt_def view_def outcome_def invoked_by_def succeeded_def)

lemma downloadFile_first_success:
  assumes "url \<noteq> []" and "filename \<noteq> []"
  shows "view (downloadFile pf e url filename d)
         = first_success (strategy_promise pf e url filename) (chain url) []"
proof -
  let ?p = "strategy_promise pf e url filename"
  have rs: "\<And>s d. fst (run_strategy pf e url filename s d) = ?p s"
    by (rule run_strategy_promise)
  have nt: "\<And>d tr. view (attempt NewTab (downloadViaNewTab e url filename)
                 (\<lambda>d invoked. (Resolved all_failed, d, invoked)) d tr)
             = first_success ?p [NewTab] tr"
    by (rule view_attempt) (use rs [of NewTab] in \<open>simp_all add: run_strategy_def view_def outcome_def invoked_by_def\<close>)
  have ifr: "\<And>d tr. view (attempt Iframe (downloadViaIframe pf e url filename)
                 (attempt NewTab (downloadViaNewTab e url filename)
                 (\<lambda>d invoked. (Resolved all_failed, d, invoked))) d tr)
             = first_success ?p [Iframe, NewTab] tr"
    by (rule view_attempt) (use rs [of Iframe] nt in \<open>simp_all add: run_strategy_def\<close>)
  have cv: "\<And>d tr. view ((if isImage url
                 then attempt Canvas (downloadViaCanvas pf e url filename)
                   (attempt Iframe (downloadViaIframe pf e url filename)
                   (attempt NewTab (downloadViaNewTab e url filename)
                   (\<lambda>d invoked. (Resolved all_failed, d, invoked))))
                 else attempt Iframe (downloadViaIframe pf e url filename)
                   (attempt NewTab (downloadViaNewTab e url filename)
                   (\<lambda>d invoked. (Resolved all_failed, d, invoked)))) d tr)
             = first_success ?p ((if isImage url then [Canvas] else []) @ [Iframe, NewTab]) tr"
  proof -
    fix d tr
    show "?thesis d tr"
    proof (cases "isImage url")
      case True
      have "view (attempt Canvas (downloadViaCanvas pf e url filename)
                   (attempt Iframe (downloadViaIframe pf e url filename)
                   (attempt NewTab (downloadViaNewTab e url filename)
                   (\<lambda>d invoked. (Resolved all_failed, d, invoked)))) d tr)
            = first_success ?p (Canvas # [Iframe, NewTab]) tr"
        by (rule view_attempt) (use rs [of Canvas] ifr in \<open>simp_all add: run_strategy_def\<close>)
      with True show ?thesis by simp
    next
      case False
      with ifr show ?thesis by simp
    qed
  qed
  have x: "\<And>d tr. view (attempt XHR (downloadViaXHR pf e url filename)
                 (if isImage url
                 then attempt Canvas (downloadViaCanvas pf e url filename)
                   (attempt Iframe (downloadViaIframe pf e url filename)
                   (attempt NewTab (downloadViaNewTab e url filename)
                   (\<lambda>d invoked. (Resolved all_failed, d, invoked))))
                 else attempt Iframe (downloadViaIframe pf e url filename)
                   (attempt NewTab (downloadViaNewTab e url filename)
                   (\<lambda>d invoked. (Resolved all_failed, d, invoked)))) d tr)
             = first_success ?p (XHR # (if isImage url then [Canvas] else []) @ [Iframe, NewTab]) tr"
    by (rule view_attempt) (use rs [of XHR] cv in \<open>simp_all add: run_strategy_def\<close>)
  have f: "\<And>d tr. view (attempt Fetch (downloadViaFetch pf e url filename)
                 (attempt XHR (downloadViaXHR pf e url filename)
                 (if isImage url
                 then attempt Canvas (downloadViaCanvas pf e url filename)
                   (attempt Iframe (downloadViaIframe pf e url filename)
                   (attempt NewTab (downloadViaNewTab e url filename)
                   (\<lambda>d invoked. (Resolved all_failed, d, invoked))))
                 else attempt Iframe (downloadViaIframe pf e url filename)
                   (attempt NewTab (downloadViaNewTab e url filename)
                   (\<lambda>d invoked. (Resolved all_failed, d, invoked))))) d tr)
             = first_success ?p (Fetch # XHR # (if isImage url then [Canvas] else []) @ [Iframe, NewTab]) tr"
    by (rule view_attempt) (use rs [of Fetch] x in \<open>simp_all add: run_strategy_def\<close>)
  have df: "\<And>d tr. view (attempt DirectFetch (downloadViaDirectFetch e url filename)
                 (attempt Fetch (downloadViaFetch pf e url filename)
                 (attempt XHR (downloadViaXHR pf e url filename)
                 (if isImage url
                 then attempt Canvas (downloadViaCanvas pf e url filename)
                   (attempt Iframe (downloadViaIframe pf e url filename)
                   (attempt NewTab (downloadViaNewTab e url filename)
                   (\<lambda>d invoked. (Resolved all_failed, d, invoked))))
                 else attempt Iframe (downloadViaIframe pf e url filename)
                   (attempt NewTab (downloadViaNewTab e url filename)
                   (\<lambda>d invoked. (Resolved all_failed, d, invoked)))))) d tr)
             = first_success ?p (DirectFetch # Fetch # XHR # (if isImage url then [Canvas] else []) @ [Iframe, NewTab]) tr"
    by (rule view_attempt) (use rs [of DirectFetch] f in \<open>simp_all add: run_strategy_def\<close>)
  show ?thesis
    using assms df [of d "[]"]
    by (simp add: downloadFile_def Let_def chain_def automated_def)
qed

lemma first_success_invoked:
  "\<exists>k. snd (first_success p ss tr) = tr @ take k ss"
proof (induction ss arbitrary: tr)
  case Nil
  then show ?case by simp
next
  case (Cons s ss)
  show ?case
  proof (cases "p s")
    case (Resolved u)
    then have "snd (first_success p (s # ss) tr) = tr @ take 1 (s # ss)" by simp
    then show ?thesis by blast
  next
    case (Rejected msg)
    from Cons [of "tr @ [s]"] obtain k where "snd (first_success p ss (tr @ [s])) = (tr @ [s]) @ take k ss"
      by blast
    with Rejected have "snd (first_success p (s # ss) tr) = tr @ take (Suc k) (s # ss)" by simp
    then show ?thesis by blast
  next
    case Pending
    then have "snd (first_success p (s # ss) tr) = tr @ take 1 (s # ss)" by simp
    then show ?thesis by blast
  qed
qed

lemma first_success_stops:
  assumes "\<forall>x \<in> set pre. \<exists>m. p x = Rejected m" and "p s = Resolved ()"
  shows "first_success p (pre @ s # post) tr = (Resolved (succeeded s), tr @ pre @ [s])"
  using assms by (induction pre arbitrary: tr) auto

lemma first_success_exhausted:
  assumes "\<forall>x \<in> set ss. \<exists>m. p x = Rejected m"
  shows "first_success p ss tr = (Resolved all_failed, tr @ ss)"
  using assms by (induction ss arbitrary: tr) auto



lemma newtab_promise:
  "strategy_promise pf e url filename NewTab =
     (if newtab_anchor_ok (faults e NewTab) then Resolved ()
      else case faults e NewTab WindowOpen of None \<Rightarrow> Resolved () | Some m \<Rightarrow> Rejected m)"
  by (simp add: strategy_promise_def run_strategy_def downloadViaNewTab_def Let_def
        newTab_fallback_def createElement_def newtab_anchor_ok_def split: option.splits prod.splits)

lemma downloadFile_guard:
  "url = [] \<or> filename = [] \<Longrightarrow>
   downloadFile pf e url filename d = (Rejected ''URL and filename are required'', d, [])"
  by (auto simp add: downloadFile_def)

lemma outcome_first_success:
  "url \<noteq> [] \<Longrightarrow> filename \<noteq> [] \<Longrightarrow>
   outcome (downloadFile pf e url filename d)
     = fst (first_success (strategy_promise pf e url filename) (chain url) [])"
  using arg_cong [OF downloadFile_first_success [of url filename pf e d], of fst]
  by (simp add: view_def)

lemma invoked_first_success:
  "url \<noteq> [] \<Longrightarrow> filename \<noteq> [] \<Longrightarrow>
   invoked_by (downloadFile pf e url filename d)
     = snd (first_success (strategy_promise pf e url filename) (chain url) [])"
  using arg_cong [OF downloadFile_first_success [of url filename pf e d], of snd]
  by (simp add: view_def)



lemmas strategy_defs = strategy_promise_def run_strategy_def downloadViaDirectFetch_def
  downloadViaFetch_def downloadViaXHR_def downloadViaCanvas_def downloadViaIframe_def
  downloadViaNewTab_def newTab_fallback_def forceDownload_def tryDataUrlDownload_def
  direct_deferred_def fetch_failure_def Let_def

lemmas dom_defs = createElement_def appendChild_def removeChild_def createObjectURL_def
  revokeObjectURL_def activated_def window_open_def empty_dom_def

lemmas sample_defs = example_platform_def simple_pathname_def path_of_def online_def offline_def
  cors_blocked_def video_stalled_def stalled_response_def hostile_def no_faults_def
  good_response_def first_fetch_down_def fetches_down_def

lemmas image_defs = isImage_def image_suffix_here_def ascii_lower_def char_of_eq_iff

lemma clip_not_image: "\<not> isImage ''media/clip.mp4''"
  by (simp add: image_defs)


lemma images_clip_is_image: "isImage ''https://cdn.example.com/images/clip.mp4''"
  by (simp add: image_defs)

lemma hostile_promises:
  "strategy_promise example_platform hostile ''media/clip.mp4'' ''clip.mp4'' DirectFetch
     = Rejected ''Direct fetch download failed: Failed to fetch''"
  "strategy_promise example_platform hostile ''media/clip.mp4'' ''clip.mp4'' Fetch
     = Rejected ''Fetch download failed: Failed to fetch''"
  "strategy_promise example_platform hostile ''media/clip.mp4'' ''clip.mp4'' XHR
     = Rejected ''XHR network error''"
  "strategy_promise example_platform hostile ''media/clip.mp4'' ''clip.mp4'' Iframe
     = Rejected ''Iframe download failed: Invalid URL''"
  "strategy_promise example_platform hostile ''media/clip.mp4'' ''clip.mp4'' NewTab
     = Rejected ''blocked''"
  by (simp_all add: strategy_defs dom_defs sample_defs)



lemma first_success_reaches:
  assumes "\<forall>x \<in> set pre. \<exists>m. p x = Rejected m"
  shows "\<exists>k. snd (first_success p (pre @ s # post) tr) = tr @ pre @ s # take k post"
  using assms
proof (induction pre arbitrary: tr)
  case Nil
  show ?case
  proof (cases "p s")
    case (Resolved u)
    then have "snd (first_success p ([] @ s # post) tr) = tr @ [] @ s # take 0 post" by simp
    then show ?thesis by blast
  next
    case (Rejected msg)
    obtain k where "snd (first_success p post (tr @ [s])) = (tr @ [s]) @ take k post"
      using first_success_invoked by blast
    with Rejected have "snd (first_success p ([] @ s # post) tr) = tr @ [] @ s # take k post"
      by simp
    then show ?thesis by blast
  next
    case Pending
    then have "snd (first_success p ([] @ s # post) tr) = tr @ [] @ s # take 0 post" by simp
    then show ?thesis by blast
  qed
next
  case (Cons x pre)
  then obtain m where m: "p x = Rejected m" by auto
  from Cons have "\<forall>x \<in> set pre. \<exists>m. p x = Rejected m" by simp
  from Cons.IH [OF this, of "tr @ [x]"] obtain k where
    "snd (first_success p (pre @ s # post) (tr @ [x])) = (tr @ [x]) @ pre @ s # take k post"
    by blast
  with m have "snd (first_success p ((x # pre) @ s # post) tr) = tr @ (x # pre) @ s # take k post"
    by simp
  then show ?case by blast
qed

lemma offline_promises:
  "strategy_promise example_platform offline ''media/clip.mp4'' ''clip.mp4'' DirectFetch
     = Rejected ''Direct fetch download failed: Failed to fetch''"
  "strategy_promise example_platform offline ''media/clip.mp4'' ''clip.mp4'' Fetch
     = Rejected ''Fetch download failed: Failed to fetch''"
  "strategy_promise example_platform offline ''media/clip.mp4'' ''clip.mp4'' XHR
     = Rejected ''XHR network error''"
  "strategy_promise example_platform offline ''media/clip.mp4'' ''clip.mp4'' Iframe
     = Rejected ''Iframe download failed: Invalid URL''"
  by (simp_all add: strategy_defs dom_defs sample_defs)

lemma offline_newtab: "newtab_anchor_ok (faults offline NewTab)"
  by (simp add: newtab_anchor_ok_def offline_def no_faults_def)

text \<open>
  C2, amended. With every automated strategy rejected, the chain ends in the new-tab
  fallback and the download resolves to \<open>{success: true, method: 'newtab'}\<close> when the
  anchor path of the fallback runs through or \<open>window.open\<close> in its handler does not
  throw; when both throw, the last handler of \<open>downloadFile\<close> answers
  \<open>{success: false, method: 'none', error}\<close>.
\<close>

theorem downloadFile_exhaustion:
  assumes "url \<noteq> []" and "filename \<noteq> []"
    and "\<forall>s \<in> set (automated url). \<exists>m. strategy_promise pf e url filename s = Rejected m"
  shows "outcome (downloadFile pf e url filename d)
           = (if newtab_anchor_ok (faults e NewTab) \<or> faults e NewTab WindowOpen = None
              then Resolved \<lparr>success = True, transfer_method = ''newtab'', error = None\<rparr>
              else Resolved \<lparr>success = False, transfer_method = ''none'',
                     error = Some ''All download methods failed. Please try again or contact support.''\<rparr>)
         \<and> invoked_by (downloadFile pf e url filename d) = chain url"
proof (cases "newtab_anchor_ok (faults e NewTab) \<or> faults e NewTab WindowOpen = None")
  case True
  then have "strategy_promise pf e url filename NewTab = Resolved ()"
    by (auto simp add: newtab_promise)
  then have "first_success (strategy_promise pf e url filename) (chain url) []
             = (Resolved (succeeded NewTab), chain url)"
    using first_success_stops [OF assms(3), of NewTab "[]" "[]"] by (simp add: chain_def)
  with True assms(1,2) show ?thesis
    by (simp add: outcome_first_success invoked_first_success succeeded_def method_name_def)
next
  case False
  then obtain m where "strategy_promise pf e url filename NewTab = Rejected m"
    by (auto simp add: newtab_promise)
  with assms(3) have "\<forall>s \<in> set (chain url). \<exists>m. strategy_promise pf e url filename s = Rejected m"
    by (simp add: chain_def)
  then have "first_success (strategy_promise pf e url filename) (chain url) []
             = (Resolved all_failed, chain url)"
    using first_success_exhausted [of "chain url" "strategy_promise pf e url filename" "[]"] by simp
  with False assms(1,2) show ?thesis
    by (simp add: outcome_first_success invoked_first_success all_failed_def)
qed

text \<open>The network down, a URL that does not parse, and a fallback that works.\<close>

theorem downloadFile_exhaustion_witness:
  "outcome (downloadFile example_platform offline ''media/clip.mp4'' ''clip.mp4'' empty_dom)
     = Resolved \<lparr>success = True, transfer_method = ''newtab'', error = None\<rparr>
   \<and> invoked_by (downloadFile example_platform offline ''media/clip.mp4'' ''clip.mp4'' empty_dom)
     = [DirectFetch, Fetch, XHR, Iframe, NewTab]"
  using downloadFile_exhaustion
          [of "''media/clip.mp4''" "''clip.mp4''" example_platform offline empty_dom]
  by (simp add: chain_def automated_def clip_not_image offline_promises offline_newtab)

text \<open>
  C2, as stated: with every automated strategy rejected the result is always
  \<open>{success: true, method: 'newtab'}\<close>. Here all of them are rejected, \<open>click\<close> and
  \<open>window.open\<close> throw in the fallback, and the result is the hard failure.
\<close>

theorem downloadFile_exhaustion_counterexample:
  "strategy_promise example_platform hostile ''media/clip.mp4'' ''clip.mp4'' DirectFetch
     = Rejected ''Direct fetch download failed: Failed to fetch''
   \<and> strategy_promise example_platform hostile ''media/clip.mp4'' ''clip.mp4'' Fetch
     = Rejected ''Fetch download failed: Failed to fetch''
   \<and> strategy_promise example_platform hostile ''media/clip.mp4'' ''clip.mp4'' XHR
     = Rejected ''XHR network error''
   \<and> \<not> isImage ''media/clip.mp4''
   \<and> strategy_promise example_platform hostile ''media/clip.mp4'' ''clip.mp4'' Iframe
     = Rejected ''Iframe download failed: Invalid URL''
   \<and> outcome (downloadFile example_platform hostile ''media/clip.mp4'' ''clip.mp4'' empty_dom)
     = Resolved \<lparr>success = False, transfer_method = ''none'',
          error = Some ''All download methods failed. Please try again or contact support.''\<rparr>"
proof -
  have "first_success (strategy_promise example_platform hostile ''media/clip.mp4'' ''clip.mp4'')
          (chain ''media/clip.mp4'') [] = (Resolved all_failed, chain ''media/clip.mp4'')"
    using first_success_exhausted
            [of "chain ''media/clip.mp4''"
                "strategy_promise example_platform hostile ''media/clip.mp4'' ''clip.mp4''" "[]"]
    by (simp add: chain_def automated_def clip_not_image hostile_promises)
  then show ?thesis
    by (simp add: outcome_first_success all_failed_def clip_not_image hostile_promises)
qed

text \<open>
  C5, amended. Whether the canvas strategy is invoked follows the text of the URL and
  not the content type: for a URL that neither contains \<open>image\<close> nor matches the
  extension test it is never invoked, whatever the earlier strategies did; for a URL
  that does, it is invoked as soon as direct-fetch, fetch and xhr have been rejected.
\<close>

theorem canvas_follows_the_url:
  "(\<not> isImage url \<longrightarrow> Canvas \<notin> set (invoked_by (downloadFile pf e url filename d)))
   \<and> (url \<noteq> [] \<and> filename \<noteq> [] \<and> isImage url
        \<and> (\<exists>m. strategy_promise pf e url filename DirectFetch = Rejected m)
        \<and> (\<exists>m. strategy_promise pf e url filename Fetch = Rejected m)
        \<and> (\<exists>m. strategy_promise pf e url filename XHR = Rejected m)
      \<longrightarrow> Canvas \<in> set (invoked_by (downloadFile pf e url filename d)))"
proof (intro conjI impI)
  assume ni: "\<not> isImage url"
  show "Canvas \<notin> set (invoked_by (downloadFile pf e url filename d))"
  proof (cases "url = [] \<or> filename = []")
    case True
    then show ?thesis using downloadFile_guard [OF True] by (simp add: invoked_by_def)
  next
    case False
    then obtain k where "invoked_by (downloadFile pf e url filename d) = take k (chain url)"
      using first_success_invoked [of "strategy_promise pf e url filename" "chain url" "[]"]
      by (auto simp add: invoked_first_success)
    moreover have "Canvas \<notin> set (chain url)"
      using ni by (simp add: chain_def automated_def)
    ultimately show ?thesis
      using set_take_subset [of k "chain url"] by auto
  qed
next
  assume h: "url \<noteq> [] \<and> filename \<noteq> [] \<and> isImage url
        \<and> (\<exists>m. strategy_promise pf e url filename DirectFetch = Rejected m)
        \<and> (\<exists>m. strategy_promise pf e url filename Fetch = Rejected m)
        \<and> (\<exists>m. strategy_promise pf e url filename XHR = Rejected m)"
  then have c: "chain url = [DirectFetch, Fetch, XHR] @ Canvas # [Iframe, NewTab]"
    by (simp add: chain_def automated_def)
  have "\<forall>x \<in> set [DirectFetch, Fetch, XHR]. \<exists>m. strategy_promise pf e url filename x = Rejected m"
    using h by simp
  from first_success_reaches [OF this, of Canvas "[Iframe, NewTab]" "[]"]
  obtain k where "snd (first_success (strategy_promise pf e url filename) (chain url) [])
                  = [DirectFetch, Fetch, XHR] @ Canvas # take k [Iframe, NewTab]"
    unfolding c by auto
  with h show "Canvas \<in> set (invoked_by (downloadFile pf e url filename d))"
    by (simp add: invoked_first_success)
qed

lemma video_stalled_promises:
  "strategy_promise example_platform video_stalled ''https://cdn.example.com/images/clip.mp4''
     ''clip.mp4'' DirectFetch = Rejected ''Direct fetch download failed: network error''"
  "strategy_promise example_platform video_stalled ''https://cdn.example.com/images/clip.mp4''
     ''clip.mp4'' Fetch = Rejected ''Fetch download failed: network error''"
  "strategy_promise example_platform video_stalled ''https://cdn.example.com/images/clip.mp4''
     ''clip.mp4'' XHR = Rejected ''XHR timeout''"
  by (simp_all add: strategy_defs dom_defs sample_defs)

text \<open>A video under \<open>media/\<close> and a video under \<open>images/\<close>.\<close>

theorem canvas_follows_the_url_witness:
  "Canvas \<notin> set (invoked_by (downloadFile example_platform offline ''media/clip.mp4''
                              ''clip.mp4'' empty_dom))
   \<and> Canvas \<in> set (invoked_by (downloadFile example_platform video_stalled
                    ''https://cdn.example.com/images/clip.mp4'' ''clip.mp4'' empty_dom))"
  using canvas_follows_the_url
          [of "''media/clip.mp4''" example_platform offline "''clip.mp4''" empty_dom]
        canvas_follows_the_url
          [of "''https://cdn.example.com/images/clip.mp4''" example_platform video_stalled
              "''clip.mp4''" empty_dom]
  by (simp add: clip_not_image images_clip_is_image video_stalled_promises)

text \<open>
  C5, as stated: for content of type \<open>video/mp4\<close> the canvas strategy is never invoked.
  The responses here carry \<open>video/mp4\<close>, the URL has \<open>images\<close> in its path, and canvas
  is the fourth strategy invoked.
\<close>

theorem canvas_for_video_counterexample:
  "direct_fetch video_stalled = FetchResponse stalled_response
   \<and> resp_content_type stalled_response = Some ''video/mp4''
   \<and> invoked_by (downloadFile example_platform video_stalled
        ''https://cdn.example.com/images/clip.mp4'' ''clip.mp4'' empty_dom)
     = [DirectFetch, Fetch, XHR, Canvas, Iframe]"
  by (simp add: downloadFile_def attempt_def invoked_by_def images_clip_is_image
        strategy_defs dom_defs sample_defs)





section \<open>Properties of the cleanup\<close>

lemma remove1_fresh_node:
  "list_all (\<lambda>node. fst node < (n::nat)) xs \<Longrightarrow> n \<le> m \<Longrightarrow> remove1 (m, t) (xs @ [(m, t)]) = xs"
proof -
  assume "list_all (\<lambda>node. fst node < n) xs" and "n \<le> m"
  then have "(m, t) \<notin> set xs" by (auto simp add: list_all_iff)
  then show ?thesis by (simp add: remove1_append)
qed

lemma remove1_fresh_url:
  "list_all (\<lambda>u. u < (n::nat)) us \<Longrightarrow> remove1 n (us @ [n]) = us"
proof -
  assume "list_all (\<lambda>u. u < n) us"
  then have "n \<notin> set us" by (auto simp add: list_all_iff)
  then show ?thesis by (simp add: remove1_append)
qed

lemma tryDataUrlDownload_cleanup:
  assumes "list_all (\<lambda>node. fst node < n) (body d)" and "n \<le> next_node d"
    and "fst (tryDataUrlDownload f filename d) \<noteq> Pending"
  shows "body (snd (tryDataUrlDownload f filename d)) = body d
       \<and> object_urls (snd (tryDataUrlDownload f filename d)) = object_urls d"
  using assms remove1_fresh_node [OF assms(1,2), of Anchor]
  by (simp add: tryDataUrlDownload_def Let_def dom_defs split: option.splits)

lemma forceDownload_cleanup:
  assumes "wf_dom d"
    and "f CreateElement = None" and "f AppendChild = None"
    and "f RemoveChild = None" and "f RevokeObjectURL = None"
    and "fst (forceDownload f filename d) \<noteq> Pending"
  shows "body (snd (forceDownload f filename d)) = body d
       \<and> object_urls (snd (forceDownload f filename d)) = object_urls d"
proof (cases "f CreateObjectURL")
  case (Some m)
  then show ?thesis by (simp add: forceDownload_def)
next
  case None
  have nodes: "list_all (\<lambda>node. fst node < next_node d) (body d)"
    and urls: "list_all (\<lambda>u. u < next_url d) (object_urls d)"
    using assms(1) by (simp_all add: wf_dom_def)
  have rn: "remove1 (next_node d, Anchor) (body d @ [(next_node d, Anchor)]) = body d"
    using remove1_fresh_node [OF nodes] by simp
  have ru: "remove1 (next_url d) (object_urls d @ [next_url d]) = object_urls d"
    using remove1_fresh_url [OF urls] .
  let ?success = "f Click = None \<or> f DispatchMouseEvent = None \<or> f FocusClick = None
                  \<or> f DispatchUserEvent = None"
  show ?thesis
  proof (cases ?success)
    case True
    then show ?thesis
      using None assms(2-5) rn ru
      by (simp add: forceDownload_def Let_def dom_defs)
  next
    case False
    let ?d6 = "d\<lparr>next_url := Suc (next_url d), next_node := Suc (next_node d)\<rparr>"
    have eq: "forceDownload f filename d = tryDataUrlDownload f filename ?d6"
      using False None assms(2-5) rn ru
      by (auto simp add: forceDownload_def Let_def dom_defs)
    have "body (snd (tryDataUrlDownload f filename ?d6)) = body ?d6
        \<and> object_urls (snd (tryDataUrlDownload f filename ?d6)) = object_urls ?d6"
      using assms(6) nodes unfolding eq
      by (intro tryDataUrlDownload_cleanup [where n = "next_node d"]) simp_all
    then show ?thesis unfolding eq by simp
  qed
qed

lemma triggerDownload_cleanup:
  assumes "wf_dom d"
    and "f CreateElement = None" and "f AppendChild = None"
    and "f RemoveChild = None" and "f RevokeObjectURL = None"
  shows "fst (triggerDownload f filename d) \<noteq> Pending
       \<and> body (snd (triggerDownload f filename d)) = body d
       \<and> object_urls (snd (triggerDownload f filename d)) = object_urls d"
proof -
  have nodes: "list_all (\<lambda>node. fst node < next_node d) (body d)"
    and urls: "list_all (\<lambda>u. u < next_url d) (object_urls d)"
    using assms(1) by (simp_all add: wf_dom_def)
  have rn: "remove1 (next_node d, Anchor) (body d @ [(next_node d, Anchor)]) = body d"
    using remove1_fresh_node [OF nodes] by simp
  have ru: "remove1 (next_url d) (object_urls d @ [next_url d]) = object_urls d"
    using remove1_fresh_url [OF urls] .
  show ?thesis
    using assms(2-5) rn ru
    by (simp add: triggerDownload_def Let_def dom_defs split: option.splits)
qed

lemma snd_force_case:
  "snd (case forceDownload f filename d of (Resolved u, d') \<Rightarrow> (a, d') | (Rejected m, d') \<Rightarrow> (b m, d')
        | (Pending, d') \<Rightarrow> (c, d'))
   = snd (forceDownload f filename d)"
  by (simp split: prod.splits promise.splits)

lemma fetch_cleanup:
  assumes "wf_dom d" and "bookkeeping_ok (faults e Fetch)"
    and "fst (downloadViaFetch pf e url filename d) \<noteq> Pending"
  shows "same_document d (snd (downloadViaFetch pf e url filename d))"
proof (cases "\<exists>r. blob_fetch e = FetchResponse r \<and> resp_ok r \<and> resp_blob_error r = None")
  case True
  then obtain r where r: "blob_fetch e = FetchResponse r" "resp_ok r" "resp_blob_error r = None"
    by blast
  let ?name = "ensureFileExtension pf filename url
                 (case resp_content_type r of None \<Rightarrow> [] | Some t \<Rightarrow> t)"
  have "fst (forceDownload (faults e Fetch) ?name d) \<noteq> Pending"
    using assms(3) r by (simp add: downloadViaFetch_def Let_def fst_force_case split: promise.splits)
  then have "same_document d (snd (forceDownload (faults e Fetch) ?name d))"
    using forceDownload_cleanup [of d "faults e Fetch" ?name] assms(1,2)
    by (simp add: bookkeeping_ok_def same_document_def)
  then show ?thesis
    using r by (simp add: downloadViaFetch_def Let_def snd_force_case)
next
  case False
  then show ?thesis
    by (auto simp add: downloadViaFetch_def Let_def same_document_def
             split: fetch_result.splits option.splits)
qed

lemma xhr_cleanup:
  assumes "wf_dom d" and "bookkeeping_ok (faults e XHR)"
    and "fst (downloadViaXHR pf e url filename d) \<noteq> Pending"
  shows "same_document d (snd (downloadViaXHR pf e url filename d))"
proof (cases "\<not> (js_includes url ''firebasestorage.googleapis.com'' \<and> url_pathname pf url = None)
              \<and> faults e XHR XhrOpen = None \<and> (\<exists>h. xhr e = XhrLoad 200 h)")
  case True
  then obtain h where h: "xhr e = XhrLoad 200 h" by blast
  let ?name = "ensureFileExtension pf filename url (case h of None \<Rightarrow> [] | Some t \<Rightarrow> t)"
  have "fst (forceDownload (faults e XHR) ?name d) \<noteq> Pending"
    using assms(3) True h
    by (auto simp add: downloadViaXHR_def Let_def fst_force_case split: promise.splits)
  then have "same_document d (snd (forceDownload (faults e XHR) ?name d))"
    using forceDownload_cleanup [of d "faults e XHR" ?name] assms(1,2)
    by (simp add: bookkeeping_ok_def same_document_def)
  then show ?thesis
    using True h by (auto simp add: downloadViaXHR_def Let_def snd_force_case)
next
  case False
  then show ?thesis
    by (auto simp add: downloadViaXHR_def Let_def same_document_def
             split: xhr_result.splits option.splits)
qed

lemma canvas_cleanup:
  assumes "wf_dom d" and "bookkeeping_ok (faults e Canvas)"
    and "fst (downloadViaCanvas pf e url filename d) \<noteq> Pending"
  shows "same_document d (snd (downloadViaCanvas pf e url filename d))"
proof (cases "image e = ImageLoaded \<and> faults e Canvas CanvasProcessing = None
              \<and> faults e Canvas ToBlobNull = None")
  case True
  let ?name = "ensureFileExtension pf filename url ''image/jpeg''"
  have "fst (forceDownload (faults e Canvas) ?name d) \<noteq> Pending"
    using assms(3) True
    by (auto simp add: downloadViaCanvas_def Let_def fst_force_case split: promise.splits)
  then have "same_document d (snd (forceDownload (faults e Canvas) ?name d))"
    using forceDownload_cleanup [of d "faults e Canvas" ?name] assms(1,2)
    by (simp add: bookkeeping_ok_def same_document_def)
  then show ?thesis
    using True by (auto simp add: downloadViaCanvas_def Let_def snd_force_case)
next
  case False
  then show ?thesis
    by (auto simp add: downloadViaCanvas_def Let_def same_document_def
             split: image_result.splits option.splits)
qed

lemma iframe_cleanup:
  assumes "wf_dom d" and "bookkeeping_ok (faults e Iframe)"
  shows "same_document d (snd (downloadViaIframe pf e url filename d))"
proof -
  have nodes: "list_all (\<lambda>node. fst node < next_node d) (body d)"
    using assms(1) by (simp add: wf_dom_def)
  have rn: "remove1 (next_node d, IframeTag) (body d @ [(next_node d, IframeTag)]) = body d"
    using remove1_fresh_node [OF nodes] by simp
  show ?thesis
    using assms(2) rn
    by (simp add: downloadViaIframe_def Let_def dom_defs bookkeeping_ok_def same_document_def
             split: option.splits)
qed

text \<open>
  C8, amended. On a well-formed document, and when none of the bookkeeping calls
  (\<open>createElement\<close>, \<open>appendChild\<close>, \<open>removeChild\<close>, \<open>revokeObjectURL\<close>) throws: once
  \<open>forceDownload\<close> has settled, resolved or rejected, the children of the body and the
  live object URLs are those from before the call; \<open>triggerDownload\<close> always settles, and
  leaves them so; and the fetch, xhr, canvas and iframe strategies, once settled, leave
  them so. Which activations threw, and whether any went through, plays no part.
\<close>

theorem cleanup_when_bookkeeping_holds:
  assumes "wf_dom d"
  shows "(bookkeeping_ok f \<and> fst (forceDownload f filename d) \<noteq> Pending
            \<longrightarrow> same_document d (snd (forceDownload f filename d)))
       \<and> (bookkeeping_ok f
            \<longrightarrow> fst (triggerDownload f filename d) \<noteq> Pending
              \<and> same_document d (snd (triggerDownload f filename d)))
       \<and> ((s = Fetch \<or> s = XHR \<or> s = Canvas \<or> s = Iframe)
            \<and> bookkeeping_ok (faults e s)
            \<and> fst (run_strategy pf e url filename s d) \<noteq> Pending
            \<longrightarrow> same_document d (snd (run_strategy pf e url filename s d)))"
proof (intro conjI impI)
  assume "bookkeeping_ok f \<and> fst (forceDownload f filename d) \<noteq> Pending"
  then show "same_document d (snd (forceDownload f filename d))"
    using forceDownload_cleanup [OF assms, of f filename]
    by (simp add: bookkeeping_ok_def same_document_def)
next
  assume b: "bookkeeping_ok f"
  then show "fst (triggerDownload f filename d) \<noteq> Pending"
    using triggerDownload_cleanup [OF assms, of f filename] by (simp add: bookkeeping_ok_def)
  from b show "same_document d (snd (triggerDownload f filename d))"
    using triggerDownload_cleanup [OF assms, of f filename]
    by (simp add: bookkeeping_ok_def same_document_def)
next
  assume h: "(s = Fetch \<or> s = XHR \<or> s = Canvas \<or> s = Iframe)
            \<and> bookkeeping_ok (faults e s)
            \<and> fst (run_strategy pf e url filename s d) \<noteq> Pending"
  then consider "s = Fetch" | "s = XHR" | "s = Canvas" | "s = Iframe" by blast
  then show "same_document d (snd (run_strategy pf e url filename s d))"
  proof cases
    case 1
    with h show ?thesis using fetch_cleanup [OF assms, of e pf url filename]
      by (simp add: run_strategy_def)
  next
    case 2
    with h show ?thesis using xhr_cleanup [OF assms, of e pf url filename]
      by (simp add: run_strategy_def)
  next
    case 3
    with h show ?thesis using canvas_cleanup [OF assms, of e pf url filename]
      by (simp add: run_strategy_def)
  next
    case 4
    with h show ?thesis using iframe_cleanup [OF assms, of e pf url filename]
      by (simp add: run_strategy_def)
  qed
qed

lemma wf_busy_dom: "wf_dom busy_dom"
  by (simp add: wf_dom_def busy_dom_def)

lemma bookkeeping_clicks_denied: "bookkeeping_ok clicks_denied"
  by (simp add: bookkeeping_ok_def clicks_denied_def)

text \<open>Every activation throws: both triggers reject, and the document is as it was.\<close>

theorem cleanup_when_bookkeeping_holds_witness:
  "fst (forceDownload clicks_denied ''photo.jpg'' busy_dom) = Rejected ''Data URL download failed''
   \<and> body (snd (forceDownload clicks_denied ''photo.jpg'' busy_dom)) = [(0, Anchor), (2, IframeTag)]
   \<and> object_urls (snd (forceDownload clicks_denied ''photo.jpg'' busy_dom)) = [4]
   \<and> fst (triggerDownload clicks_denied ''photo.jpg'' busy_dom)
       = Rejected ''Failed to trigger download - all click methods failed''
   \<and> body (snd (triggerDownload clicks_denied ''photo.jpg'' busy_dom)) = [(0, Anchor), (2, IframeTag)]
   \<and> object_urls (snd (triggerDownload clicks_denied ''photo.jpg'' busy_dom)) = [4]"
proof -
  have f: "fst (forceDownload clicks_denied ''photo.jpg'' busy_dom)
             = Rejected ''Data URL download failed''"
    by (simp add: forceDownload_def tryDataUrlDownload_def Let_def dom_defs clicks_denied_def
          busy_dom_def)
  have t: "fst (triggerDownload clicks_denied ''photo.jpg'' busy_dom)
             = Rejected ''Failed to trigger download - all click methods failed''"
    by (simp add: triggerDownload_def Let_def dom_defs clicks_denied_def busy_dom_def)
  have b: "body busy_dom = [(0, Anchor), (2, IframeTag)]" "object_urls busy_dom = [4]"
    by (simp_all add: busy_dom_def)
  show ?thesis
    using cleanup_when_bookkeeping_holds
            [OF wf_busy_dom, of clicks_denied "''photo.jpg''" Iframe offline example_platform
               "''media/clip.mp4''"]
          bookkeeping_clicks_denied f t b
    by (simp add: same_document_def)
qed

text \<open>
  C8, as stated: after any attempt, whether it succeeded or failed, what it created is
  gone. The cleanup of \<open>forceDownload\<close> is a \<open>try\<close> whose handler resolves: when
  \<open>removeChild\<close> throws there, the promise resolves with the anchor attached and the
  object URL live.
\<close>

theorem cleanup_counterexample:
  "fst (forceDownload removal_fails ''photo.jpg'' busy_dom) = Resolved ()
   \<and> body (snd (forceDownload removal_fails ''photo.jpg'' busy_dom))
       = [(0, Anchor), (2, IframeTag), (3, Anchor)]
   \<and> object_urls (snd (forceDownload removal_fails ''photo.jpg'' busy_dom)) = [4, 5]"
  by (simp add: forceDownload_def Let_def dom_defs removal_fails_def busy_dom_def)

text \<open>
  The new-tab fallback removes its anchor by the statement after \<open>click\<close>: when \<open>click\<close>
  throws there, the anchor stays.
\<close>

lemma newTab_click_leaves_anchor:
  "faults e NewTab CreateElement = None \<Longrightarrow> faults e NewTab AppendChild = None
   \<Longrightarrow> faults e NewTab Click = Some m
   \<Longrightarrow> body (snd (downloadViaNewTab e url filename d)) = body d @ [(next_node d, Anchor)]"
  by (simp add: downloadViaNewTab_def newTab_fallback_def Let_def dom_defs split: option.splits)

section \<open>Properties of batch downloads\<close>




lemma started_append: "started (xs @ ys) = started xs @ started ys"
  by (induction xs rule: started.induct) simp_all

lemma started_Started: "started (map Started xs) = xs"
  by (induction xs) simp_all

lemma started_Settled: "started (map Settled xs) = []"
  by (induction xs) simp_all






lemma zip_indices:
  "zip (map f [0..<length b]) b = map (\<lambda>k. (f k, b ! k)) [0..<length b]"
  by (rule nth_equalityI) simp_all



lemma js_slice_batch:
  assumes "0 \<le> i" and "i < int (length files)" and "1 \<le> c"
  shows "js_slice files i (i + c) = take (nat c) (drop (nat i) files)"
proof (cases "i + c \<le> int (length files)")
  case True
  with assms show ?thesis by (simp add: js_slice_def Let_def min_def)
next
  case False
  with assms have "js_slice files i (i + c) = take (length files - nat i) (drop (nat i) files)"
    by (simp add: js_slice_def Let_def min_def nat_diff_distrib)
  also have "\<dots> = drop (nat i) files" by simp
  also have "\<dots> = take (nat c) (drop (nat i) files)"
    using False assms by simp
  finally show ?thesis .
qed

lemma batch_indices:
  assumes "0 \<le> i"
  shows "map (\<lambda>k. i + int k) [0..<m] = map int [nat i..<nat i + m]"
  using assms by (intro nth_equalityI) simp_all


text \<open>
  When neither callback throws: every file of a batch is called, a download that
  settles adds one entry and one count, and no error leaves the callback of
  \<open>batch.map\<close>.
\<close>

lemma fold_begin_quiet:
  assumes "\<forall>p. invoke (onProgress opts) p = None"
  shows "fold (begin_item opts n) items (t, tr, thrown)
           = (t, tr @ map Started (map fst items), thrown)"
  using assms by (induction items arbitrary: tr) (simp_all add: begin_item_def)

lemma settle_one:
  assumes "download_promise pf (envs (fst item)) (snd item) \<noteq> Pending"
    and "\<forall>c. invoke (onFileComplete opts) c = None"
  shows "\<exists>t'. settle pf envs opts item (t, tr, thrown) = (t', tr @ [Settled (fst item)], thrown)
           \<and> map entry_key (results t')
               = map entry_key (results t) @ [(fst item, file_url (snd item), file_name (snd item))]
           \<and> successful t' + failed t' = Suc (successful t + failed t)"
  using assms
  by (cases item; cases "download_promise pf (envs (fst item)) (snd item)")
     (simp_all add: settle_def catch_branch_def entry_key_def Let_def)

lemma fold_settle:
  assumes "\<forall>item \<in> set xs. download_promise pf (envs (fst item)) (snd item) \<noteq> Pending"
    and quiet: "\<forall>c. invoke (onFileComplete opts) c = None"
  shows "\<exists>t'. fold (settle pf envs opts) xs (t, tr, thrown)
                 = (t', tr @ map (\<lambda>item. Settled (fst item)) xs, thrown)
           \<and> map entry_key (results t')
               = map entry_key (results t)
                 @ map (\<lambda>item. (fst item, file_url (snd item), file_name (snd item))) xs
           \<and> successful t' + failed t' = successful t + failed t + length xs"
  using assms(1)
proof (induction xs arbitrary: t tr)
  case Nil
  then show ?case by simp
next
  case (Cons item xs)
  then have np: "download_promise pf (envs (fst item)) (snd item) \<noteq> Pending" by simp
  from settle_one [of pf envs item opts t tr thrown] np quiet obtain t1 where
    t1: "settle pf envs opts item (t, tr, thrown) = (t1, tr @ [Settled (fst item)], thrown)"
        "map entry_key (results t1)
           = map entry_key (results t) @ [(fst item, file_url (snd item), file_name (snd item))]"
        "successful t1 + failed t1 = Suc (successful t + failed t)"
    by blast
  from Cons have "\<forall>item \<in> set xs. download_promise pf (envs (fst item)) (snd item) \<noteq> Pending"
    by simp
  from Cons.IH [of t1 "tr @ [Settled (fst item)]"] this obtain t' where
    "fold (settle pf envs opts) xs (t1, tr @ [Settled (fst item)], thrown)
       = (t', (tr @ [Settled (fst item)]) @ map (\<lambda>item. Settled (fst item)) xs, thrown)"
    "map entry_key (results t')
       = map entry_key (results t1)
         @ map (\<lambda>item. (fst item, file_url (snd item), file_name (snd item))) xs"
    "successful t' + failed t' = successful t1 + failed t1 + length xs"
    by blast
  with t1 show ?case by simp
qed

lemma run_batch_tally:
  assumes "\<forall>k < length batch. download_promise pf (envs (i + int k)) (batch ! k) \<noteq> Pending"
    and qp: "\<forall>p. invoke (onProgress opts) p = None"
    and qc: "\<forall>c. invoke (onFileComplete opts) c = None"
  shows "\<exists>t' tr'. run_batch pf envs opts n i batch (t, tr) = (AllSettled, t', tr')
     \<and> mset (map entry_key (results t'))
         = mset (map entry_key (results t))
           + mset (map (\<lambda>k. (i + int k, file_url (batch ! k), file_name (batch ! k)))
                    [0..<length batch])
     \<and> successful t' + failed t' = successful t + failed t + length batch
     \<and> started tr' = started tr @ map (\<lambda>k. i + int k) [0..<length batch]"
proof -
  let ?items = "zip (map (\<lambda>k. i + int k) [0..<length batch]) batch"
  let ?called = "filter (download_called opts n) ?items"
  let ?settling = "filter (\<lambda>item. download_promise pf (envs (fst item)) (snd item) \<noteq> Pending) ?called"
  let ?ordered = "sort_key (\<lambda>item. settle_time (envs (fst item)) (snd item)) ?settling"
  let ?tr1 = "tr @ map Started (map fst ?items)"
  let ?key = "\<lambda>item. (fst item, file_url (snd item), file_name (snd item))"
  have items: "?items = map (\<lambda>k. (i + int k, batch ! k)) [0..<length batch]"
    by (rule zip_indices)
  have called: "?called = ?items"
    by (rule filter_True) (simp add: download_called_def qp)
  have all0: "filter (\<lambda>item. download_promise pf (envs (fst item)) (snd item) \<noteq> Pending) ?items
                = ?items"
    using assms(1) unfolding items by (simp add: filter_map comp_def)
  then have all: "?settling = ?items" unfolding called .
  have begun: "fold (begin_item opts n) ?items (t, tr, []) = (t, ?tr1, [])"
    by (rule fold_begin_quiet [OF qp])
  have np: "\<forall>item \<in> set ?ordered. download_promise pf (envs (fst item)) (snd item) \<noteq> Pending"
    by simp
  from fold_settle [of ?ordered pf envs opts t ?tr1 "[]"] np qc obtain t' where
    t': "fold (settle pf envs opts) ?ordered (t, ?tr1, [])
           = (t', ?tr1 @ map (\<lambda>item. Settled (fst item)) ?ordered, [])"
        "map entry_key (results t') = map entry_key (results t) @ map ?key ?ordered"
        "successful t' + failed t' = successful t + failed t + length ?ordered"
    by blast
  have "mset (map ?key ?ordered) = mset (map ?key ?items)"
    using all by simp
  also have "\<dots> = mset (map (\<lambda>k. (i + int k, file_url (batch ! k), file_name (batch ! k)))
                        [0..<length batch])"
    unfolding items by (simp add: comp_def)
  finally have keys: "mset (map ?key ?ordered)
      = mset (map (\<lambda>k. (i + int k, file_url (batch ! k), file_name (batch ! k))) [0..<length batch])" .
  have len: "length ?ordered = length batch" using all by simp
  have "run_batch pf envs opts n i batch (t, tr)
          = (AllSettled, t', ?tr1 @ map (\<lambda>item. Settled (fst item)) ?ordered)"
    unfolding run_batch_def Let_def prod.case called all0 begun t'(1) [unfolded called all0]
    by simp
  moreover have "mset (map entry_key (results t'))
         = mset (map entry_key (results t))
           + mset (map (\<lambda>k. (i + int k, file_url (batch ! k), file_name (batch ! k)))
                    [0..<length batch])"
    using arg_cong [OF t'(2), of mset] keys by (simp only: mset_append)
  moreover have "successful t' + failed t' = successful t + failed t + length batch"
    using t'(3) len by simp
  moreover have "started (?tr1 @ map (\<lambda>item. Settled (fst item)) ?ordered)
                   = started tr @ map (\<lambda>k. i + int k) [0..<length batch]"
  proof -
    have "map fst ?items = map (\<lambda>k. i + int k) [0..<length batch]"
      by (simp add: zip_indices comp_def)
    moreover have "map (\<lambda>item. Settled (fst item)) ?ordered = map Settled (map fst ?ordered)"
      by (simp add: comp_def)
    ultimately show ?thesis
      by (simp only: started_append started_Started started_Settled append_Nil2)
  qed
  ultimately show ?thesis by blast
qed

lemma batch_keys:
  assumes "0 \<le> i" and "m \<le> length files - nat i"
  shows "map (\<lambda>k. (i + int k, file_url (take m (drop (nat i) files) ! k),
                     file_name (take m (drop (nat i) files) ! k))) [0..<m]
         = map (item_key files) [nat i..<nat i + m]"
proof (rule nth_equalityI)
  show "length (map (\<lambda>k. (i + int k, file_url (take m (drop (nat i) files) ! k),
                     file_name (take m (drop (nat i) files) ! k))) [0..<m])
        = length (map (item_key files) [nat i..<nat i + m])"
    by simp
next
  fix k
  assume "k < length (map (\<lambda>k. (i + int k, file_url (take m (drop (nat i) files) ! k),
                     file_name (take m (drop (nat i) files) ! k))) [0..<m])"
  then have k: "k < m" by simp
  with assms show "map (\<lambda>k. (i + int k, file_url (take m (drop (nat i) files) ! k),
                     file_name (take m (drop (nat i) files) ! k))) [0..<m] ! k
        = map (item_key files) [nat i..<nat i + m] ! k"
    by (simp add: item_key_def)
qed

text \<open>
  The loop runs through when the limit is positive, neither callback throws and every
  download settles.
\<close>

lemma process_batches_done:
  assumes "1 \<le> c" and "0 \<le> i"
    and "\<forall>k < length files. download_promise pf (envs (int k)) (files ! k) \<noteq> Pending"
    and "length files - nat i < fuel"
    and qp: "\<forall>p. invoke (onProgress opts) p = None"
    and qc: "\<forall>c. invoke (onFileComplete opts) c = None"
  shows "\<exists>t' tr'. process_batches fuel pf envs opts files c i (t, tr) = (Done, t', tr')
     \<and> mset (map entry_key (results t'))
         = mset (map entry_key (results t)) + mset (map (item_key files) [nat i..<length files])
     \<and> successful t' + failed t' = successful t + failed t + (length files - nat i)
     \<and> started tr' = started tr @ map int [nat i..<length files]"
  using assms(2,4)
proof (induction fuel arbitrary: i t tr)
  case 0
  then show ?case by simp
next
  case (Suc fuel)
  show ?case
  proof (cases "i < int (length files)")
    case False
    then have "length files \<le> nat i" using Suc.prems(1) by simp
    then show ?thesis using False by simp
  next
    case True
    let ?m = "min (nat c) (length files - nat i)"
    let ?batch = "take (nat c) (drop (nat i) files)"
    have slice: "js_slice files i (i + c) = ?batch"
      using js_slice_batch [OF Suc.prems(1) True assms(1)] .
    have len: "length ?batch = ?m" by simp
    have tk: "?batch = take ?m (drop (nat i) files)" by (simp add: min_def)
    have ni: "nat i < length files" using True Suc.prems(1) by simp
    have np: "\<forall>k < length ?batch. download_promise pf (envs (i + int k)) (?batch ! k) \<noteq> Pending"
    proof (intro allI impI)
      fix k assume "k < length ?batch"
      then have k: "k < nat c" "nat i + k < length files" by (simp, simp, linarith)
      then have "download_promise pf (envs (int (nat i + k))) (files ! (nat i + k)) \<noteq> Pending"
        using assms(3) by blast
      moreover have "int (nat i + k) = i + int k" using Suc.prems(1) by simp
      moreover have "?batch ! k = files ! (nat i + k)" using k by simp
      ultimately show "download_promise pf (envs (i + int k)) (?batch ! k) \<noteq> Pending" by simp
    qed
    from run_batch_tally [of ?batch pf envs i opts "length files" t tr] np qp qc obtain t1 tr1 where
      rb: "run_batch pf envs opts (length files) i ?batch (t, tr) = (AllSettled, t1, tr1)"
      and keys1: "mset (map entry_key (results t1))
         = mset (map entry_key (results t))
           + mset (map (\<lambda>k. (i + int k, file_url (?batch ! k), file_name (?batch ! k)))
                    [0..<length ?batch])"
      and count1: "successful t1 + failed t1 = successful t + failed t + length ?batch"
      and start1: "started tr1 = started tr @ map (\<lambda>k. i + int k) [0..<length ?batch]"
      by blast
    have keys1': "mset (map entry_key (results t1))
         = mset (map entry_key (results t)) + mset (map (item_key files) [nat i..<nat i + ?m])"
      using keys1 batch_keys [OF Suc.prems(1), of ?m files] unfolding len tk [symmetric]
      by simp
    have start1': "started tr1 = started tr @ map int [nat i..<nat i + ?m]"
      using start1 batch_indices [OF Suc.prems(1), of ?m] unfolding len by simp
    have pos: "0 \<le> i + c" using assms(1) Suc.prems(1) by simp
    have fuel: "length files - nat (i + c) < fuel"
      using Suc.prems(2) assms(1) Suc.prems(1) ni by (simp add: nat_add_distrib)
    from Suc.IH [OF pos fuel, of t1 tr1] obtain t' tr' where
      rec: "process_batches fuel pf envs opts files c (i + c) (t1, tr1) = (Done, t', tr')"
      and keys2: "mset (map entry_key (results t'))
         = mset (map entry_key (results t1))
           + mset (map (item_key files) [nat (i + c)..<length files])"
      and count2: "successful t' + failed t'
         = successful t1 + failed t1 + (length files - nat (i + c))"
      and start2: "started tr' = started tr1 @ map int [nat (i + c)..<length files]"
      by blast
    have split: "[nat i..<length files] = [nat i..<nat i + ?m] @ [nat (i + c)..<length files]"
    proof (cases "nat c \<le> length files - nat i")
      case True
      then have "?m = nat c" by simp
      moreover have "nat (i + c) = nat i + nat c"
        using assms(1) Suc.prems(1) by (simp add: nat_add_distrib)
      moreover have "[nat i..<length files]
                       = [nat i..<nat i + nat c] @ [nat i + nat c..<length files]"
        using True ni
              upt_add_eq_append [of "nat i" "nat i + nat c" "length files - (nat i + nat c)"]
        by simp
      ultimately show ?thesis by simp
    next
      case False
      then have m: "?m = length files - nat i" by simp
      have "length files \<le> nat (i + c)"
        using False assms(1) Suc.prems(1) by (simp add: nat_add_distrib)
      then have "[nat (i + c)..<length files] = []" by simp
      moreover have "nat i + ?m = length files" using m ni by simp
      ultimately show ?thesis by simp
    qed
    have total: "?m + (length files - nat (i + c)) = length files - nat i"
      using arg_cong [OF split, of length] by simp
    have "process_batches (Suc fuel) pf envs opts files c i (t, tr) = (Done, t', tr')"
      using True slice rb rec by simp
    moreover have "mset (map entry_key (results t'))
         = mset (map entry_key (results t)) + mset (map (item_key files) [nat i..<length files])"
      using keys2 keys1' unfolding split by (simp only: map_append mset_append add.assoc)
    moreover have "successful t' + failed t'
         = successful t + failed t + (length files - nat i)"
      using count2 count1 total unfolding len by linarith
    moreover have "started tr' = started tr @ map int [nat i..<length files]"
      using start2 start1' unfolding split by (simp only: map_append append_assoc)
    ultimately show ?thesis by blast
  qed
qed

text \<open>
  For a non-empty array of files, a concurrency limit of at least 1, callbacks that do
  not throw and downloads that all settle, the loop returns (with fuel for more turns
  than there are files): \<open>results\<close> holds every input item with its index exactly once,
  whether the item succeeded or failed; every file is called exactly once, in the order
  of the input; \<open>total\<close> is the length of the input and \<open>successful + failed = total\<close>.
\<close>

lemma batch_results_when_callbacks_return:
  assumes "files \<noteq> []" and "1 \<le> concurrency_of opts"
    and "\<forall>k < length files. download_promise pf (envs (int k)) (files ! k) \<noteq> Pending"
    and "length files < fuel"
    and "\<forall>p. invoke (onProgress opts) p = None"
    and "\<forall>c. invoke (onFileComplete opts) c = None"
  shows "\<exists>r tr. downloadMultipleFiles fuel pf envs (FilesArray files) opts = (Some (Resolved r), tr)
     \<and> length (results r) = length files
     \<and> mset (map entry_key (results r)) = mset (map (item_key files) [0..<length files])
     \<and> started tr = map int [0..<length files]
     \<and> total r = length files
     \<and> successful r + failed r = total r"
proof -
  let ?t0 = "\<lparr>results = [], successful = 0, failed = 0\<rparr>"
  from process_batches_done [OF assms(2) _ assms(3) _ assms(5,6), of 0 fuel ?t0 "[]"] assms(4)
  obtain t' tr' where
    run: "process_batches fuel pf envs opts files (concurrency_of opts) 0 (?t0, []) = (Done, t', tr')"
    and keys: "mset (map entry_key (results t')) = mset (map (item_key files) [0..<length files])"
    and count: "successful t' + failed t' = length files"
    and starts: "started tr' = map int [0..<length files]"
    by auto
  let ?r = "\<lparr>results = results t', successful = successful t', failed = failed t',
              total = length files\<rparr>"
  have "downloadMultipleFiles fuel pf envs (FilesArray files) opts = (Some (Resolved ?r), tr')"
    using assms(1) run by (simp add: downloadMultipleFiles_def)
  moreover have "length (results ?r) = length files"
    using arg_cong [OF keys, of size] by simp
  moreover have "mset (map entry_key (results ?r)) = mset (map (item_key files) [0..<length files])"
    using keys by simp
  moreover have "total ?r = length files" by simp
  moreover have "successful ?r + failed ?r = total ?r" using count by simp
  ultimately show ?thesis using starts by blast
qed




text \<open>
  C10. When the first argument is not an array, or is the empty array,
  \<open>downloadMultipleFiles\<close> rejects with the error of its guard and no download has been
  called; so a result object comes out of a non-empty array only.
\<close>

theorem batch_guard:
  "(arg = NotAnArray \<or> arg = FilesArray []
      \<longrightarrow> downloadMultipleFiles fuel pf envs arg opts
            = (Some (Rejected ''Files array is required and must not be empty''), []))
   \<and> (fst (downloadMultipleFiles fuel pf envs arg opts) = Some (Resolved r)
      \<longrightarrow> (\<exists>files. arg = FilesArray files \<and> files \<noteq> []))"
  by (cases arg) (auto simp add: downloadMultipleFiles_def)


text \<open>
  C7. The claim asks for one element of \<open>results\<close> for every input item and for
  \<open>successful + failed = total\<close>. \<open>onFileComplete\<close> is called inside the \<open>try\<close>, after the
  entry has been pushed and counted, and the \<open>catch\<close> pushes and counts again: for the one
  file of \<open>one_file\<close>, which downloads at the first strategy, and a callback that throws
  when it is told of a success, \<open>results\<close> has two elements for the one file, a success
  and a failure, and \<open>successful + failed\<close> is 2 where \<open>total\<close> is 1.
\<close>

theorem batch_counts_file_twice:
  "fst (downloadMultipleFiles 2 example_platform sample_envs (FilesArray one_file) with_listener)
     = Some (Resolved
         \<lparr>results =
            [\<lparr>entry_url = ''https://cdn.example.com/a.png'', entry_filename = ''a.png'',
              entry_success = True, entry_method = ''direct-fetch'', entry_error = None,
              entry_index = 0\<rparr>,
             \<lparr>entry_url = ''https://cdn.example.com/a.png'', entry_filename = ''a.png'',
              entry_success = False, entry_method = ''none'',
              entry_error = Some ''listener failed'', entry_index = 0\<rparr>],
          successful = 1, failed = 1, total = 1\<rparr>)
   \<and> length one_file = 1"
  by code_simp

lemma sample_promises:
  "download_promise example_platform (sample_envs 0) (sample_files ! 0)
     = Resolved \<lparr>success = True, transfer_method = ''direct-fetch'', error = None\<rparr>"
  "download_promise example_platform (sample_envs 1) (sample_files ! 1) = Resolved all_failed"
  "download_promise example_platform (sample_envs 2) (sample_files ! 2)
     = Resolved \<lparr>success = True, transfer_method = ''direct-fetch'', error = None\<rparr>"
  "download_promise example_platform (sample_envs 3) (sample_files ! 3)
     = Rejected ''URL and filename are required''"
  "download_promise example_platform (sample_envs 4) (sample_files ! 4)
     = Resolved \<lparr>success = True, transfer_method = ''direct-fetch'', error = None\<rparr>"
  by (simp_all add: download_promise_def sample_files_def sample_envs_def downloadFile_def
        attempt_def method_name_def strategy_defs dom_defs sample_defs image_defs all_failed_def)

lemma sample_settles:
  "\<forall>k < length sample_files.
     download_promise example_platform (sample_envs (int k)) (sample_files ! k) \<noteq> Pending"
proof (intro allI impI)
  fix k assume "k < length sample_files"
  then have "k < 5" by (simp add: sample_files_def)
  then consider "k = 0" | "k = 1" | "k = 2" | "k = 3" | "k = 4" by linarith
  then show "download_promise example_platform (sample_envs (int k)) (sample_files ! k) \<noteq> Pending"
    by cases
       (simp_all only: sample_promises of_nat_0 of_nat_1 of_nat_numeral promise.distinct
          not_False_eq_True)
qed


text \<open>
  An \<open>onProgress\<close> that throws for the second of two files: the file is recorded as
  failed and \<open>downloadFile\<close> is not called for it.
\<close>

lemma progress_error_skips_download:
  "downloadMultipleFiles 3 example_platform sample_envs (FilesArray (take 2 sample_files))
     with_progress
   = (Some (Resolved
        \<lparr>results =
           [\<lparr>entry_url = ''https://cdn.example.com/a.png'', entry_filename = ''a.png'',
             entry_success = True, entry_method = ''direct-fetch'', entry_error = None,
             entry_index = 0\<rparr>,
            \<lparr>entry_url = ''media/clip.mp4'', entry_filename = ''clip.mp4'',
             entry_success = False, entry_method = ''none'', entry_error = Some ''busy'',
             entry_index = 1\<rparr>],
         successful = 1, failed = 1, total = 2\<rparr>),
      [Started 0, Settled 0])"
  by code_simp

text \<open>The batch of five, two at a time and without callbacks: every file once.\<close>

lemma sample_results:
  "\<exists>r tr. downloadMultipleFiles 6 example_platform sample_envs (FilesArray sample_files)
             two_at_a_time = (Some (Resolved r), tr)
     \<and> length (results r) = 5
     \<and> mset (map entry_key (results r))
         = {#(0, ''https://cdn.example.com/a.png'', ''a.png''), (1, ''media/clip.mp4'', ''clip.mp4''),
             (2, ''https://cdn.example.com/c.png'', ''c''), (3, ''https://cdn.example.com/d.png'', []),
             (4, ''https://cdn.example.com/e.png'', ''e.png'')#}
     \<and> started tr = [0, 1, 2, 3, 4]
     \<and> total r = 5
     \<and> successful r + failed r = 5"
proof -
  have len: "length sample_files = 5" by (simp add: sample_files_def)
  have c: "1 \<le> concurrency_of two_at_a_time" by (simp add: concurrency_of_def two_at_a_time_def)
  have ne: "sample_files \<noteq> []" by (simp add: sample_files_def)
  have qp: "\<forall>p. invoke (onProgress two_at_a_time) p = None"
    by (simp add: invoke_def two_at_a_time_def)
  have qc: "\<forall>c. invoke (onFileComplete two_at_a_time) c = None"
    by (simp add: invoke_def two_at_a_time_def)
  have upt: "[0..<5] = [0, 1, 2, 3, 4]" by (simp add: upt_rec)
  have keys: "map (item_key sample_files) [0, 1, 2, 3, 4]
      = [(0, ''https://cdn.example.com/a.png'', ''a.png''), (1, ''media/clip.mp4'', ''clip.mp4''),
         (2, ''https://cdn.example.com/c.png'', ''c''), (3, ''https://cdn.example.com/d.png'', []),
         (4, ''https://cdn.example.com/e.png'', ''e.png'')]"
    by (simp add: item_key_def sample_files_def)
  from batch_results_when_callbacks_return [OF ne c sample_settles _ qp qc, of 6]
  obtain r tr where
    "downloadMultipleFiles 6 example_platform sample_envs (FilesArray sample_files)
       two_at_a_time = (Some (Resolved r), tr)"
    "length (results r) = 5"
    "mset (map entry_key (results r)) = mset (map (item_key sample_files) [0, 1, 2, 3, 4])"
    "started tr = map int [0, 1, 2, 3, 4]"
    "total r = 5" "successful r + failed r = total r"
    unfolding len upt by auto
  then show ?thesis unfolding keys by (intro exI [of _ r] exI [of _ tr]) simp
qed

text \<open>A value that is not an array, and the empty array.\<close>

theorem batch_guard_witness:
  "downloadMultipleFiles 4 example_platform sample_envs NotAnArray two_at_a_time
     = (Some (Rejected ''Files array is required and must not be empty''), [])
   \<and> downloadMultipleFiles 4 example_platform sample_envs (FilesArray []) with_listener
     = (Some (Rejected ''Files array is required and must not be empty''), [])"
  using batch_guard [of NotAnArray 4 example_platform sample_envs two_at_a_time]
        batch_guard [of "FilesArray []" 4 example_platform sample_envs with_listener]
  by simp


end
